theory Spec2Isabelle
  imports Main "HOL-Library.AList" "HOL-Library.Sublist"
begin

section \<open>Strings as the scraper uses them\<close>

text \<open>
  The scraper (\<^verbatim>\<open>src/scripts/scrape_sudhelpla.py\<close>) works on Python \<^verbatim>\<open>str\<close> values.
  They are modelled as \<^typ>\<open>string\<close>, one \<^typ>\<open>char\<close> per code point, so a text of the model
  is a text of code points below 256. The character classes and \<^verbatim>\<open>str.lower\<close> below are
  Python's on these code points. \<^verbatim>\<open>str.upper\<close> is Python's on all of them but three, whose
  upper-case forms are not texts of code points below 256: 0xB5 (upper case U+039C),
  0xDF (upper case \<^verbatim>\<open>SS\<close>) and 0xFF (upper case U+0178); the model leaves them as they
  are. The properties that depend on the case or the whitespace of an arbitrary text
  are stated for ASCII text (\<open>ascii\<close> below). Python's limit on the number of digits
  \<^verbatim>\<open>int()\<close> accepts (4300 by default since 3.11) is not modelled.
\<close>

datatype exn = ValueError | KeyError | LibError string

definition lowers :: string where
  "lowers = ''abcdefghijklmnopqrstuvwxyz''"

definition uppers :: string where
  "uppers = ''ABCDEFGHIJKLMNOPQRSTUVWXYZ''"

definition digits :: string where
  "digits = ''0123456789''"

text \<open>The letters with a case beyond ASCII: 0xC0 to 0xDE without the multiplication
  sign 0xD7, and 0xE0 to 0xFE without the division sign 0xF7, each lower-case letter
  0x20 above its upper-case letter.\<close>

definition latin_uppers :: string where
  "latin_uppers =
     [CHR 0xC0, CHR 0xC1, CHR 0xC2, CHR 0xC3, CHR 0xC4, CHR 0xC5, CHR 0xC6, CHR 0xC7,
      CHR 0xC8, CHR 0xC9, CHR 0xCA, CHR 0xCB, CHR 0xCC, CHR 0xCD, CHR 0xCE, CHR 0xCF,
      CHR 0xD0, CHR 0xD1, CHR 0xD2, CHR 0xD3, CHR 0xD4, CHR 0xD5, CHR 0xD6, CHR 0xD8,
      CHR 0xD9, CHR 0xDA, CHR 0xDB, CHR 0xDC, CHR 0xDD, CHR 0xDE]"

definition latin_lowers :: string where
  "latin_lowers =
     [CHR 0xE0, CHR 0xE1, CHR 0xE2, CHR 0xE3, CHR 0xE4, CHR 0xE5, CHR 0xE6, CHR 0xE7,
      CHR 0xE8, CHR 0xE9, CHR 0xEA, CHR 0xEB, CHR 0xEC, CHR 0xED, CHR 0xEE, CHR 0xEF,
      CHR 0xF0, CHR 0xF1, CHR 0xF2, CHR 0xF3, CHR 0xF4, CHR 0xF5, CHR 0xF6, CHR 0xF8,
      CHR 0xF9, CHR 0xFA, CHR 0xFB, CHR 0xFC, CHR 0xFD, CHR 0xFE]"

text \<open>\<^verbatim>\<open>str.isspace\<close> and the pattern \<^verbatim>\<open>\s\<close>: tab, newline, vertical tab, form feed,
  carriage return, the four separators 0x1c to 0x1f, the space, the next-line control
  0x85 and the no-break space 0xA0.\<close>

definition spaces :: string where
  "spaces = [CHR 0x09, CHR 0x0A, CHR 0x0B, CHR 0x0C, CHR 0x0D,
             CHR 0x1C, CHR 0x1D, CHR 0x1E, CHR 0x1F, CHR '' '', CHR 0x85, CHR 0xA0]"

definition is_space :: "char \<Rightarrow> bool" where
  "is_space c = (c \<in> set spaces)"

definition is_digit :: "char \<Rightarrow> bool" where
  "is_digit c = (c \<in> set digits)"

definition upper_ch :: "char \<Rightarrow> char" where
  "upper_ch c =
     (case map_of (zip (lowers @ latin_lowers) (uppers @ latin_uppers)) c of
        Some u \<Rightarrow> u
      | None \<Rightarrow> c)"

definition lower_ch :: "char \<Rightarrow> char" where
  "lower_ch c =
     (case map_of (zip (uppers @ latin_uppers) (lowers @ latin_lowers)) c of
        Some l \<Rightarrow> l
      | None \<Rightarrow> c)"

text \<open>\<^verbatim>\<open>s.upper()\<close>, \<^verbatim>\<open>s.lower()\<close>\<close>

definition upper :: "string \<Rightarrow> string" where
  "upper s = map upper_ch s"

definition lower :: "string \<Rightarrow> string" where
  "lower s = map lower_ch s"

text \<open>\<^verbatim>\<open>re.sub(r'\s+', '', s)\<close>: every maximal run of whitespace is deleted, so
  exactly the non-whitespace characters stay, in order.\<close>

definition remove_spaces :: "string \<Rightarrow> string" where
  "remove_spaces s = filter (\<lambda>c. \<not> is_space c) s"

text \<open>\<^verbatim>\<open>sub in s\<close>\<close>

fun contains :: "string \<Rightarrow> string \<Rightarrow> bool" where
  "contains sub [] = (sub = [])"
| "contains sub (c # cs) = (prefix sub (c # cs) \<or> contains sub cs)"

text \<open>\<^verbatim>\<open>s.replace(sub, '')\<close> for a non-empty \<^verbatim>\<open>sub\<close>: the occurrences are found
  from the left and do not overlap. The counter is the number of characters of the
  current occurrence that are still to be skipped.\<close>

fun remove_from :: "string \<Rightarrow> nat \<Rightarrow> string \<Rightarrow> string" where
  "remove_from sub k [] = []"
| "remove_from sub k (c # cs) =
     (if 0 < k then remove_from sub (k - 1) cs
      else if prefix sub (c # cs) then remove_from sub (length sub - 1) cs
      else c # remove_from sub 0 cs)"

definition remove_all :: "string \<Rightarrow> string \<Rightarrow> string" where
  "remove_all sub s = remove_from sub 0 s"

text \<open>\<^verbatim>\<open>s.split(sep)\<close> for a one-character separator: always at least one part.\<close>

fun split_on :: "char \<Rightarrow> string \<Rightarrow> string list" where
  "split_on sep [] = [[]]"
| "split_on sep (c # cs) =
     (case split_on sep cs of
        p # ps \<Rightarrow> if c = sep then [] # p # ps else (c # p) # ps
      | [] \<Rightarrow> [[c]])"

text \<open>\<^verbatim>\<open>s.strip()\<close>, \<^verbatim>\<open>s.rstrip(':')\<close>\<close>

definition strip :: "string \<Rightarrow> string" where
  "strip s = rev (dropWhile is_space (rev (dropWhile is_space s)))"

definition rstrip_ch :: "char \<Rightarrow> string \<Rightarrow> string" where
  "rstrip_ch c s = rev (dropWhile (\<lambda>x. x = c) (rev s))"

subsection \<open>Integers from and to text\<close>

definition digit_val :: "char \<Rightarrow> nat" where
  "digit_val c = (case map_of (zip digits [0 ..< 10]) c of Some d \<Rightarrow> d | None \<Rightarrow> 0)"

text \<open>The digit part of an \<^verbatim>\<open>int()\<close> literal: decimal digits, where single underscores
  may stand between two digits. The flag says whether the previous character was a
  digit; the accumulator is the value read so far.\<close>

fun digits_val :: "bool \<Rightarrow> nat \<Rightarrow> string \<Rightarrow> nat option" where
  "digits_val prev acc [] = (if prev then Some acc else None)"
| "digits_val prev acc (c # cs) =
     (if is_digit c then digits_val True (10 * acc + digit_val c) cs
      else if c = CHR ''_'' \<and> prev then
        (case cs of d # _ \<Rightarrow> if is_digit d then digits_val False acc cs else None
                  | [] \<Rightarrow> None)
      else None)"

text \<open>\<^verbatim>\<open>int(s)\<close>: surrounding whitespace is ignored, one sign is allowed; anything else
  raises ValueError.\<close>

definition py_int :: "string \<Rightarrow> exn + int" where
  "py_int s =
     (case strip s of
        c # cs \<Rightarrow>
          if c = CHR ''-'' then
            (case digits_val False 0 cs of Some n \<Rightarrow> Inr (- int n) | None \<Rightarrow> Inl ValueError)
          else if c = CHR ''+'' then
            (case digits_val False 0 cs of Some n \<Rightarrow> Inr (int n) | None \<Rightarrow> Inl ValueError)
          else
            (case digits_val False 0 (c # cs) of Some n \<Rightarrow> Inr (int n) | None \<Rightarrow> Inl ValueError)
      | [] \<Rightarrow> Inl ValueError)"

fun show_nat :: "nat \<Rightarrow> string" where
  "show_nat n = (if n < 10 then [digits ! n] else show_nat (n div 10) @ [digits ! (n mod 10)])"

text \<open>\<^verbatim>\<open>f"{hour:02d}"\<close>: at least two characters, padded with zeros after the sign.\<close>

definition fmt_02d :: "int \<Rightarrow> string" where
  "fmt_02d h =
     (if h < 0 then CHR ''-'' # show_nat (nat (- h))
      else if h < 10 then CHR ''0'' # show_nat (nat h)
      else show_nat (nat h))"

section \<open>TimeNormalizer: \<^verbatim>\<open>convert_to_24h\<close>\<close>

text \<open>The first statement of the \<^verbatim>\<open>try\<close> block rebinds \<^verbatim>\<open>time_str\<close> to its
  upper-cased form without whitespace; every later use, the two \<^verbatim>\<open>return time_str\<close>
  included, reads the rebound variable.\<close>

definition normalize_token :: "string \<Rightarrow> string" where
  "normalize_token time_str = remove_spaces (upper time_str)"

text \<open>One branch of the \<^verbatim>\<open>if\<close>/\<^verbatim>\<open>elif\<close>: the suffix is removed, \<^verbatim>\<open>:00\<close> is appended
  when there is no colon, the parts are unpacked (ValueError unless there are exactly
  two) and the hour is read (ValueError unless it is an integer literal).\<close>

definition split_time :: "string \<Rightarrow> string \<Rightarrow> exn + (int \<times> string)" where
  "split_time suf time_str =
     (let time_part = remove_all suf time_str;
          time_part = (if \<not> contains '':'' time_part then time_part @ '':00'' else time_part)
      in case split_on CHR '':'' time_part of
           [hour, minute] \<Rightarrow>
             (case py_int hour of Inl e \<Rightarrow> Inl e | Inr h \<Rightarrow> Inr (h, minute))
         | _ \<Rightarrow> Inl ValueError)"

text \<open>The body of the \<^verbatim>\<open>try\<close> block after the rebinding.\<close>

definition convert_body :: "string \<Rightarrow> exn + string" where
  "convert_body time_str =
     (if contains ''AM'' time_str then
        (case split_time ''AM'' time_str of
           Inl e \<Rightarrow> Inl e
         | Inr (hour, minute) \<Rightarrow>
             Inr (fmt_02d (if hour = 12 then 0 else hour) @ '':'' @ minute))
      else if contains ''PM'' time_str then
        (case split_time ''PM'' time_str of
           Inl e \<Rightarrow> Inl e
         | Inr (hour, minute) \<Rightarrow>
             Inr (fmt_02d (if hour \<noteq> 12 then hour + 12 else hour) @ '':'' @ minute))
      else Inr time_str)"

text \<open>The bare \<^verbatim>\<open>except\<close> returns the rebound \<^verbatim>\<open>time_str\<close>.\<close>

definition convert_to_24h :: "string \<Rightarrow> string" where
  "convert_to_24h time_str =
     (let time_str = normalize_token time_str
      in case convert_body time_str of Inl e \<Rightarrow> time_str | Inr r \<Rightarrow> r)"

section \<open>Regular expressions\<close>

text \<open>
  The patterns of the scraper use literal characters, the classes \<^verbatim>\<open>\d\<close>, \<^verbatim>\<open>\s\<close>,
  \<^verbatim>\<open>.\<close> and bracket sets, sequence, ordered alternation, optional parts, capture
  groups, \<^verbatim>\<open>$\<close>, and repetition of a single character class (greedy or lazy). They
  are written as terms of \<open>rx\<close> and run by a backtracking matcher that lists the
  outcomes in the order in which Python's \<^verbatim>\<open>re\<close> module tries them: an earlier
  alternative before a later one, a greedy repetition from the longest run down, a
  lazy one from the shortest up. The first outcome is the match \<^verbatim>\<open>re\<close> reports.
\<close>

datatype cls = Lit char | Digit | Space | AnyChar | OneOf string | NoneOf string

text \<open>The flag is \<^verbatim>\<open>re.IGNORECASE\<close>.\<close>

fun cls_ok :: "bool \<Rightarrow> cls \<Rightarrow> char \<Rightarrow> bool" where
  "cls_ok ic (Lit a) c = (if ic then lower_ch c = lower_ch a else c = a)"
| "cls_ok ic Digit c = is_digit c"
| "cls_ok ic Space c = is_space c"
| "cls_ok ic AnyChar c = (c \<noteq> CHR 0x0A)"
| "cls_ok ic (OneOf cs) c = (if ic then lower_ch c \<in> set (lower cs) else c \<in> set cs)"
| "cls_ok ic (NoneOf cs) c = (if ic then lower_ch c \<notin> set (lower cs) else c \<notin> set cs)"

datatype rx =
    Eps
  | Ch cls
  | Seq rx rx
  | Alt rx rx
  | Opt rx
  | Rep cls nat "nat option"
  | RepLazy cls nat "nat option"
  | Grp nat rx
  | Eol

type_synonym caps = "(nat \<times> string) list"

text \<open>How many characters a repetition of a class can take at the start of the text.\<close>

definition run_length :: "bool \<Rightarrow> cls \<Rightarrow> nat option \<Rightarrow> string \<Rightarrow> nat" where
  "run_length ic k hi s =
     (let n = length (takeWhile (cls_ok ic k) s)
      in case hi of None \<Rightarrow> n | Some h \<Rightarrow> min n h)"

text \<open>A state is the text still to be read and the groups captured so far.\<close>

fun ms :: "bool \<Rightarrow> rx \<Rightarrow> string \<times> caps \<Rightarrow> (string \<times> caps) list" where
  "ms ic Eps st = [st]"
| "ms ic (Ch k) (s, c) =
     (case s of [] \<Rightarrow> [] | x # r \<Rightarrow> if cls_ok ic k x then [(r, c)] else [])"
| "ms ic (Seq a b) st = concat (map (ms ic b) (ms ic a st))"
| "ms ic (Alt a b) st = ms ic a st @ ms ic b st"
| "ms ic (Opt a) st = ms ic a st @ [st]"
| "ms ic (Rep k lo hi) (s, c) =
     map (\<lambda>j. (drop j s, c)) (rev [lo ..< Suc (run_length ic k hi s)])"
| "ms ic (RepLazy k lo hi) (s, c) =
     map (\<lambda>j. (drop j s, c)) [lo ..< Suc (run_length ic k hi s)]"
| "ms ic (Grp i a) (s, c) =
     map (\<lambda>(s', c'). (s', AList.update i (take (length s - length s') s) c')) (ms ic a (s, c))"
| "ms ic Eol (s, c) = (if s = [] \<or> s = [CHR 0x0A] then [(s, c)] else [])"

text \<open>\<^verbatim>\<open>re.match\<close>: the match at the start of the text, as the matched text and the
  captured groups.\<close>

definition rx_match :: "bool \<Rightarrow> rx \<Rightarrow> string \<Rightarrow> (string \<times> caps) option" where
  "rx_match ic r s =
     (case ms ic r (s, []) of
        [] \<Rightarrow> None
      | (rest, c) # _ \<Rightarrow> Some (take (length s - length rest) s, c))"

text \<open>\<^verbatim>\<open>re.search\<close>: the match at the leftmost position that has one.\<close>

fun rx_search :: "bool \<Rightarrow> rx \<Rightarrow> string \<Rightarrow> (string \<times> caps) option" where
  "rx_search ic r [] = rx_match ic r []"
| "rx_search ic r (x # xs) =
     (case rx_match ic r (x # xs) of Some m \<Rightarrow> Some m | None \<Rightarrow> rx_search ic r xs)"

text \<open>\<^verbatim>\<open>re.findall\<close> scans from the left and resumes behind each match. The counter is
  the number of characters of the last match that are still to be passed. (None of the
  patterns used with it matches the empty text.)\<close>

fun findall_from :: "bool \<Rightarrow> rx \<Rightarrow> nat \<Rightarrow> string \<Rightarrow> (string \<times> caps) list" where
  "findall_from ic r k [] =
     (if k = 0 then (case rx_match ic r [] of Some m \<Rightarrow> [m] | None \<Rightarrow> []) else [])"
| "findall_from ic r k (x # xs) =
     (if 0 < k then findall_from ic r (k - 1) xs
      else case rx_match ic r (x # xs) of
             None \<Rightarrow> findall_from ic r 0 xs
           | Some (txt, c) \<Rightarrow> (txt, c) # findall_from ic r (length txt - 1) xs)"

definition findall :: "bool \<Rightarrow> rx \<Rightarrow> string \<Rightarrow> (string \<times> caps) list" where
  "findall ic r s = findall_from ic r 0 s"

text \<open>\<^verbatim>\<open>m.group(i)\<close>, with the empty text for a group that took no part in the match,
  as \<^verbatim>\<open>findall\<close> reports it.\<close>

definition group :: "caps \<Rightarrow> nat \<Rightarrow> string" where
  "group c i = (case map_of c i of Some t \<Rightarrow> t | None \<Rightarrow> [])"

definition lit :: "string \<Rightarrow> rx" where
  "lit s = foldr (\<lambda>c r. Seq (Ch (Lit c)) r) s Eps"

fun alts :: "rx \<Rightarrow> rx list \<Rightarrow> rx" where
  "alts r [] = r"
| "alts r (x # xs) = Alt r (alts x xs)"

fun seqs :: "rx list \<Rightarrow> rx" where
  "seqs [] = Eps"
| "seqs (r # rs) = Seq r (seqs rs)"

section \<open>WeeklySchedule\<close>

text \<open>A Python \<^verbatim>\<open>dict\<close> keeps its keys in insertion order; assigning to an existing
  key keeps the key's position (\<^const>\<open>AList.update\<close>).\<close>

type_synonym pydict = "(string \<times> string) list"
type_synonym hours = "(string \<times> pydict) list"

definition week :: "string list" where
  "week = [''sunday'', ''monday'', ''tuesday'', ''wednesday'', ''thursday'', ''friday'',
           ''saturday'']"

definition open_close :: "string \<Rightarrow> string \<Rightarrow> pydict" where
  "open_close opn cls = [(''open'', opn), (''close'', cls)]"

definition default_hours :: hours where
  "default_hours = map (\<lambda>day. (day, open_close [] [])) week"

text \<open>\<^verbatim>\<open>d.get(k, default)\<close>\<close>

definition get_or :: "('k \<times> 'v) list \<Rightarrow> 'k \<Rightarrow> 'v \<Rightarrow> 'v" where
  "get_or d k dflt = (case map_of d k of Some v \<Rightarrow> v | None \<Rightarrow> dflt)"

text \<open>\<^verbatim>\<open>xs.index(x)\<close> for an \<^verbatim>\<open>x\<close> that is in the list.\<close>

fun index_of :: "'a \<Rightarrow> 'a list \<Rightarrow> nat" where
  "index_of x [] = 0"
| "index_of x (y # ys) = (if x = y then 0 else Suc (index_of x ys))"

section \<open>HoursTextParser: \<^verbatim>\<open>parse_hours\<close>\<close>

text \<open>\<^verbatim>\<open>24/?7|24\s*hours\<close>\<close>

definition always_open_rx :: rx where
  "always_open_rx =
     Alt (seqs [lit ''24'', Opt (Ch (Lit CHR ''/'')), lit ''7''])
         (seqs [lit ''24'', Rep Space 0 None, lit ''hours''])"

text \<open>\<^verbatim>\<open>Mon|Tue|Wed|Thu|Fri|Sat|Sun|Monday|Tuesday|Wednesday|Thursday|Friday|Saturday|Sunday\<close>\<close>

definition day_rx :: rx where
  "day_rx =
     alts (lit ''Mon'')
       (map lit [''Tue'', ''Wed'', ''Thu'', ''Fri'', ''Sat'', ''Sun'', ''Monday'', ''Tuesday'',
                 ''Wednesday'', ''Thursday'', ''Friday'', ''Saturday'', ''Sunday''])"

text \<open>\<^verbatim>\<open>\d{1,2}:\d{2}\<close>\<close>

definition clock_rx :: rx where
  "clock_rx = seqs [Rep Digit 1 (Some 2), Ch (Lit CHR '':''), Rep Digit 2 (Some 2)]"

text \<open>\<^verbatim>\<open>\d{1,2}:\d{2}\s*[AP]M?\<close>\<close>

definition text_time_rx :: rx where
  "text_time_rx =
     seqs [clock_rx, Rep Space 0 None, Ch (OneOf ''AP''), Opt (Ch (Lit CHR ''M''))]"

text \<open>\<^verbatim>\<open>(day)(?:\s*-\s*(day))?\s*:?\s*(time)\s*-\s*(time)\<close>\<close>

definition day_range_rx :: rx where
  "day_range_rx =
     seqs [Grp 1 day_rx,
           Opt (seqs [Rep Space 0 None, Ch (Lit CHR ''-''), Rep Space 0 None, Grp 2 day_rx]),
           Rep Space 0 None, Opt (Ch (Lit CHR '':'')), Rep Space 0 None,
           Grp 3 text_time_rx,
           Rep Space 0 None, Ch (Lit CHR ''-''), Rep Space 0 None,
           Grp 4 text_time_rx]"

definition day_mapping :: "(string \<times> string) list" where
  "day_mapping =
     [(''mon'', ''monday''), (''tue'', ''tuesday''), (''wed'', ''wednesday''),
      (''thu'', ''thursday''), (''fri'', ''friday''), (''sat'', ''saturday''),
      (''sun'', ''sunday''),
      (''monday'', ''monday''), (''tuesday'', ''tuesday''), (''wednesday'', ''wednesday''),
      (''thursday'', ''thursday''), (''friday'', ''friday''), (''saturday'', ''saturday''),
      (''sunday'', ''sunday'')]"

text \<open>\<^verbatim>\<open>list(day_mapping.values())\<close>: fourteen entries, Monday to Sunday twice.\<close>

definition day_list :: "string list" where
  "day_list = map snd day_mapping"

text \<open>\<^verbatim>\<open>day_mapping.get(tok.lower(), tok.lower())\<close>\<close>

definition canonical_day :: "string \<Rightarrow> string" where
  "canonical_day tok = get_or day_mapping (lower tok) (lower tok)"

text \<open>\<^verbatim>\<open>day_list.index(day)\<close>\<close>

definition day_index :: "string \<Rightarrow> nat" where
  "day_index day = index_of day day_list"

text \<open>The body of the loop over the matches; a match is the tuple of its four groups.\<close>

definition apply_range :: "hours \<Rightarrow> string \<times> string \<times> string \<times> string \<Rightarrow> hours" where
  "apply_range hours m =
     (case m of (start_tok, end_tok, open_time, close_time) \<Rightarrow>
        let start_day = canonical_day start_tok;
            end_day = (if end_tok \<noteq> [] then canonical_day end_tok else start_day);
            open_24h = convert_to_24h open_time;
            close_24h = convert_to_24h close_time
        in if start_day \<in> set day_list \<and> end_day \<in> set day_list then
             foldl (\<lambda>h i. AList.update (day_list ! i) (open_close open_24h close_24h) h) hours
               [day_index start_day ..< day_index end_day + 1]
           else hours)"

definition day_ranges :: "string \<Rightarrow> (string \<times> string \<times> string \<times> string) list" where
  "day_ranges hours_text =
     map (\<lambda>(txt, c). (group c 1, group c 2, group c 3, group c 4))
       (findall True day_range_rx hours_text)"

definition parse_hours :: "string \<Rightarrow> hours" where
  "parse_hours hours_text =
     (let hours = default_hours
      in if hours_text = [] then hours
         else if rx_search True always_open_rx hours_text \<noteq> None then
           foldl (\<lambda>h day. AList.update day (open_close ''00:00'' ''23:59'') h) hours (map fst hours)
         else foldl apply_range hours (day_ranges hours_text))"

section \<open>The document traversal surface\<close>

text \<open>
  The parsed document comes from an HTML library that is not part of the repository.
  The scraper uses five of its operations; they are taken as a parameter, a record of
  functions over an arbitrary type of nodes. A call may raise, so every operation
  returns \<open>exn + _\<close>; \<^verbatim>\<open>None\<close> (no such descendant, no such attribute, no parent) is
  \<^const>\<open>None\<close>. A node is always true in a Python condition, so \<^verbatim>\<open>if node:\<close> is the test
  for \<^const>\<open>Some\<close>.
\<close>

text \<open>The arguments of \<^verbatim>\<open>find\<close> and \<^verbatim>\<open>find_all\<close>: the tag names and the attribute
  filters (\<^verbatim>\<open>class_=...\<close>, \<^verbatim>\<open>type=...\<close>, \<^verbatim>\<open>{'id': ...}\<close>).\<close>

datatype selector = Sel "string list" "(string \<times> string) list"

record 'n dom =
  node_find :: "'n \<Rightarrow> selector \<Rightarrow> exn + 'n option"
  node_find_all :: "'n \<Rightarrow> selector \<Rightarrow> exn + 'n list"
  node_text :: "'n \<Rightarrow> bool \<Rightarrow> exn + string"
  node_get :: "'n \<Rightarrow> string \<Rightarrow> exn + string option"
  node_parent :: "'n \<Rightarrow> exn + 'n option"

text \<open>\<^verbatim>\<open>find('div', class_=c)\<close> and \<^verbatim>\<open>find(tag)\<close>\<close>

definition div_class :: "string \<Rightarrow> selector" where
  "div_class c = Sel [''div''] [(''class'', c)]"

definition tag :: "string \<Rightarrow> selector" where
  "tag t = Sel [t] []"

text \<open>\<^verbatim>\<open>[f(x) for x in xs]\<close> for an \<^verbatim>\<open>f\<close> that may raise: the first exception ends it.\<close>

fun map_exn :: "('a \<Rightarrow> exn + 'b) \<Rightarrow> 'a list \<Rightarrow> exn + 'b list" where
  "map_exn f [] = Inr []"
| "map_exn f (x # xs) =
     (case f x of
        Inl e \<Rightarrow> Inl e
      | Inr y \<Rightarrow> (case map_exn f xs of Inl e \<Rightarrow> Inl e | Inr ys \<Rightarrow> Inr (y # ys)))"

section \<open>HoursTableParser: \<^verbatim>\<open>parse_hours_table\<close>\<close>

text \<open>\<^verbatim>\<open>[c.get_text(strip=True) for c in row.find_all(['th', 'td'])]\<close>\<close>

definition cell_texts :: "'n dom \<Rightarrow> 'n \<Rightarrow> exn + string list" where
  "cell_texts d row =
     (case node_find_all d row (Sel [''th'', ''td''] []) of
        Inl e \<Rightarrow> Inl e
      | Inr cells \<Rightarrow> map_exn (\<lambda>c. node_text d c True) cells)"

definition table_day_mapping :: "(string \<times> string) list" where
  "table_day_mapping =
     [(''sun'', ''sunday''), (''mon'', ''monday''), (''tue'', ''tuesday''),
      (''wed'', ''wednesday''), (''thu'', ''thursday''), (''fri'', ''friday''),
      (''sat'', ''saturday'')]"

text \<open>\<^verbatim>\<open>\d{1,2}:\d{2}[AP]M?\<close>\<close>

definition table_time_rx :: rx where
  "table_time_rx = seqs [clock_rx, Ch (OneOf ''AP''), Opt (Ch (Lit CHR ''M''))]"

text \<open>\<^verbatim>\<open>(time)\s*-\s*(time)\<close>, matched without \<^verbatim>\<open>re.IGNORECASE\<close>\<close>

definition table_range_rx :: rx where
  "table_range_rx =
     seqs [Grp 1 table_time_rx, Rep Space 0 None, Ch (Lit CHR ''-''), Rep Space 0 None,
           Grp 2 table_time_rx]"

text \<open>The body of the loop over the zipped header and time cells. The day names in
  \<open>table_day_mapping\<close> are not empty, so \<^verbatim>\<open>if day_key:\<close> is the test for a known
  header.\<close>

definition table_cell :: "hours \<Rightarrow> string \<times> string \<Rightarrow> hours" where
  "table_cell hours p =
     (case p of (header, time_cell) \<Rightarrow>
        (case map_of table_day_mapping (lower header) of
           None \<Rightarrow> hours
         | Some day_key \<Rightarrow>
             if contains ''closed'' (lower time_cell) then
               AList.update day_key (open_close ''Closed'' ''Closed'') hours
             else
               (case rx_search False table_range_rx time_cell of
                  None \<Rightarrow> hours
                | Some (txt, c) \<Rightarrow>
                    AList.update day_key
                      (open_close (convert_to_24h (group c 1)) (convert_to_24h (group c 2)))
                      hours)))"

text \<open>The \<^verbatim>\<open>try\<close> block, as a function of the schedule at its start. It returns the
  schedule as it is when the block is left, and the exception if one left it.\<close>

definition hours_table_body :: "'n dom \<Rightarrow> 'n \<Rightarrow> hours \<Rightarrow> hours \<times> exn option" where
  "hours_table_body d table hours =
     (case node_find_all d table (tag ''tr'') of
        Inl e \<Rightarrow> (hours, Some e)
      | Inr rows \<Rightarrow>
          if 2 \<le> length rows then
            (case cell_texts d (rows ! 0) of
               Inl e \<Rightarrow> (hours, Some e)
             | Inr headers \<Rightarrow>
                 (case cell_texts d (rows ! 1) of
                    Inl e \<Rightarrow> (hours, Some e)
                  | Inr time_cells \<Rightarrow> (foldl table_cell hours (zip headers time_cells), None)))
          else (hours, None))"

text \<open>The handler logs the exception; then the schedule is returned.\<close>

definition parse_hours_table :: "'n dom \<Rightarrow> 'n \<Rightarrow> hours" where
  "parse_hours_table d table = fst (hours_table_body d table default_hours)"

section \<open>AgencyRecordExtractor: \<^verbatim>\<open>parse_agency_data\<close>\<close>

definition identity_keys :: "string list" where
  "identity_keys =
     [''agency_name'', ''agency_name_secondary'', ''agency_address'', ''agency_phone'',
      ''agency_website'', ''agency_wheelchair_access'', ''available_beds'',
      ''intake_open_appointments'', ''populations_served'', ''languages_spoken'',
      ''last_updated'']"

text \<open>\<^verbatim>\<open>f'{kind}_hours_{day}_{part}'\<close>\<close>

definition hour_key :: "string \<Rightarrow> string \<Rightarrow> string \<Rightarrow> string" where
  "hour_key kind day part = kind @ ''_hours_'' @ day @ ''_'' @ part"

text \<open>The four assignments of one round of the initialising loop.\<close>

definition init_day :: "pydict \<Rightarrow> string \<Rightarrow> pydict" where
  "init_day data day =
     AList.update (hour_key ''intake'' day ''close'') []
       (AList.update (hour_key ''intake'' day ''open'') []
         (AList.update (hour_key ''agency'' day ''close'') []
           (AList.update (hour_key ''agency'' day ''open'') [] data)))"

text \<open>The record before the \<^verbatim>\<open>try\<close> block.\<close>

definition init_data :: pydict where
  "init_data = foldl init_day (map (\<lambda>k. (k, [])) identity_keys) week"

text \<open>A step of the \<^verbatim>\<open>try\<close> block takes the record and returns the record as the
  step leaves it, with the exception if it raised one. Steps run in a row until one
  raises: the rest is skipped and the record stays as it is at that moment.\<close>

type_synonym step = "pydict \<Rightarrow> pydict \<times> exn option"

fun run_steps :: "step list \<Rightarrow> step" where
  "run_steps [] data = (data, None)"
| "run_steps (s # ss) data =
     (case s data of
        (data', Some e) \<Rightarrow> (data', Some e)
      | (data', None) \<Rightarrow> run_steps ss data')"

text \<open>\<^verbatim>\<open>x = node.find(sel)\<close> followed by \<^verbatim>\<open>if x:\<close> around a block\<close>

definition with_found :: "'n dom \<Rightarrow> 'n \<Rightarrow> selector \<Rightarrow> ('n \<Rightarrow> step) \<Rightarrow> step" where
  "with_found d node sel block data =
     (case node_find d node sel of
        Inl e \<Rightarrow> (data, Some e)
      | Inr None \<Rightarrow> (data, None)
      | Inr (Some x) \<Rightarrow> block x data)"

text \<open>\<^verbatim>\<open>data[key] = f(node.get_text(strip=...))\<close>\<close>

definition set_from_text :: "'n dom \<Rightarrow> bool \<Rightarrow> string \<Rightarrow> (string \<Rightarrow> string) \<Rightarrow> 'n \<Rightarrow> step" where
  "set_from_text d strp key f node data =
     (case node_text d node strp of
        Inl e \<Rightarrow> (data, Some e)
      | Inr t \<Rightarrow> (AList.update key (f t) data, None))"

text \<open>\<^verbatim>\<open>^\d+\.\d+\s+miles\s*\<close>; the anchor is the start of the text, so the pattern is
  matched there only.\<close>

definition miles_rx :: rx where
  "miles_rx =
     seqs [Rep Digit 1 None, Ch (Lit CHR ''.''), Rep Digit 1 None, Rep Space 1 None,
           lit ''miles'', Rep Space 0 None]"

text \<open>\<^verbatim>\<open>re.sub(r'^\d+\.\d+\s+miles\s*', '', address_text)\<close>\<close>

definition strip_miles :: "string \<Rightarrow> string" where
  "strip_miles address_text =
     (case rx_match False miles_rx address_text of
        None \<Rightarrow> address_text
      | Some (txt, c) \<Rightarrow> drop (length txt) address_text)"

text \<open>\<^verbatim>\<open>\(?\d{3}\)?[\s\-]?\d{3}[\s\-]?\d{4}\<close>\<close>

definition phone_rx :: rx where
  "phone_rx =
     seqs [Opt (Ch (Lit CHR ''('')), Rep Digit 3 (Some 3), Opt (Ch (Lit CHR '')'')),
           Opt (Ch (OneOf (CHR ''-'' # spaces))), Rep Digit 3 (Some 3),
           Opt (Ch (OneOf (CHR ''-'' # spaces))), Rep Digit 4 (Some 4)]"

text \<open>\<^verbatim>\<open>Open Intake Appts:.*?(\d+)\<close>\<close>

definition appts_rx :: rx where
  "appts_rx = seqs [lit ''Open Intake Appts:'', RepLazy AnyChar 0 None, Grp 1 (Rep Digit 1 None)]"

text \<open>\<^verbatim>\<open>re.split(r'(?=[A-Z])', text)\<close> (Python 3.7 and later): the text is cut before
  every capital letter, also before a first one, which leaves an empty first part.\<close>

fun split_caps :: "string \<Rightarrow> string list" where
  "split_caps [] = [[]]"
| "split_caps (c # cs) =
     (case split_caps cs of
        p # ps \<Rightarrow> if c \<in> set uppers then [] # (c # p) # ps else (c # p) # ps
      | [] \<Rightarrow> [[c]])"

text \<open>\<^verbatim>\<open>sep.join(parts)\<close>\<close>

fun join :: "string \<Rightarrow> string list \<Rightarrow> string" where
  "join sep [] = []"
| "join sep [p] = p"
| "join sep (p # q # ps) = p @ sep @ join sep (q # ps)"

definition populations_of :: "string \<Rightarrow> string" where
  "populations_of service_text =
     join ''; '' (map strip (filter (\<lambda>p. strip p \<noteq> []) (split_caps service_text)))"

subsection \<open>The field groups inside the listing block\<close>

definition name_group :: "'n dom \<Rightarrow> 'n \<Rightarrow> step" where
  "name_group d listing_div =
     with_found d listing_div (tag ''strong'') (set_from_text d True ''agency_name'' (\<lambda>t. t))"

definition secondary_group :: "'n dom \<Rightarrow> 'n \<Rightarrow> step" where
  "secondary_group d listing_div =
     with_found d listing_div (div_class ''secondname'') (\<lambda>secondary_div.
       with_found d secondary_div (tag ''span'')
         (set_from_text d True ''agency_name_secondary'' (\<lambda>t. t)))"

definition address_group :: "'n dom \<Rightarrow> 'n \<Rightarrow> step" where
  "address_group d listing_div =
     with_found d listing_div (div_class ''address'')
       (set_from_text d True ''agency_address'' strip_miles)"

definition set_phone :: "'n dom \<Rightarrow> 'n \<Rightarrow> step" where
  "set_phone d phone_div data =
     (case node_text d phone_div True of
        Inl e \<Rightarrow> (data, Some e)
      | Inr phone_text \<Rightarrow>
          (case rx_search False phone_rx phone_text of
             None \<Rightarrow> (data, None)
           | Some (txt, c) \<Rightarrow> (AList.update ''agency_phone'' txt data, None)))"

definition phone_group :: "'n dom \<Rightarrow> 'n \<Rightarrow> step" where
  "phone_group d listing_div = with_found d listing_div (div_class ''phone'') (set_phone d)"

text \<open>\<^verbatim>\<open>data['agency_website'] = website_elem.get('href', '')\<close>\<close>

definition set_website :: "'n dom \<Rightarrow> 'n \<Rightarrow> step" where
  "set_website d website_elem data =
     (case node_get d website_elem ''href'' of
        Inl e \<Rightarrow> (data, Some e)
      | Inr v \<Rightarrow>
          (AList.update ''agency_website'' (case v of None \<Rightarrow> [] | Some h \<Rightarrow> h) data, None))"

definition website_group :: "'n dom \<Rightarrow> 'n \<Rightarrow> step" where
  "website_group d listing_div =
     with_found d listing_div (div_class ''web'') (\<lambda>web_div.
       with_found d web_div (tag ''a'') (set_website d))"

definition wheelchair_group :: "'n dom \<Rightarrow> 'n \<Rightarrow> step" where
  "wheelchair_group d listing_div =
     with_found d listing_div (div_class ''wheel-access'')
       (set_from_text d True ''agency_wheelchair_access''
          (\<lambda>t. if contains ''yes'' (lower t) then ''Yes'' else ''No''))"

text \<open>One round of \<^verbatim>\<open>for day, times in hours.items()\<close>; a subscript with a key that
  the inner dictionary lacks raises KeyError.\<close>

definition set_day :: "string \<Rightarrow> string \<times> pydict \<Rightarrow> step" where
  "set_day kind item data =
     (case item of (day, tms) \<Rightarrow>
        (case map_of tms ''open'' of
           None \<Rightarrow> (data, Some KeyError)
         | Some opn \<Rightarrow>
             let data = AList.update (hour_key kind day ''open'') opn data
             in (case map_of tms ''close'' of
                   None \<Rightarrow> (data, Some KeyError)
                 | Some cls \<Rightarrow> (AList.update (hour_key kind day ''close'') cls data, None))))"

definition set_hours :: "'n dom \<Rightarrow> string \<Rightarrow> 'n \<Rightarrow> step" where
  "set_hours d kind table = run_steps (map (set_day kind) (parse_hours_table d table))"

definition hours_group :: "'n dom \<Rightarrow> 'n \<Rightarrow> step" where
  "hours_group d listing_div =
     with_found d listing_div (div_class ''hours'') (\<lambda>hours_div.
       with_found d hours_div (tag ''table'') (set_hours d ''agency''))"

definition listing_steps :: "'n dom \<Rightarrow> 'n \<Rightarrow> step list" where
  "listing_steps d listing_div =
     [name_group d listing_div, secondary_group d listing_div, address_group d listing_div,
      phone_group d listing_div, website_group d listing_div, wheelchair_group d listing_div,
      hours_group d listing_div]"

definition listing_group :: "'n dom \<Rightarrow> 'n \<Rightarrow> step" where
  "listing_group d agency_div =
     with_found d agency_div (div_class ''listing'') (\<lambda>listing_div.
       run_steps (listing_steps d listing_div))"

subsection \<open>The field groups of the agency block\<close>

definition beds_group :: "'n dom \<Rightarrow> 'n \<Rightarrow> step" where
  "beds_group d agency_div =
     with_found d agency_div (div_class ''available-beds'')
       (set_from_text d True ''available_beds'' (\<lambda>t. t))"

definition set_appointments :: "string \<Rightarrow> step" where
  "set_appointments intake_text data =
     (case rx_search False appts_rx intake_text of
        None \<Rightarrow> (data, None)
      | Some (txt, c) \<Rightarrow> (AList.update ''intake_open_appointments'' (group c 1) data, None))"

definition set_intake :: "'n dom \<Rightarrow> 'n \<Rightarrow> step" where
  "set_intake d intake_div data =
     (case node_text d intake_div False of
        Inl e \<Rightarrow> (data, Some e)
      | Inr intake_text \<Rightarrow>
          run_steps [set_appointments intake_text,
                     with_found d intake_div (tag ''table'') (set_hours d ''intake'')] data)"

definition intake_group :: "'n dom \<Rightarrow> 'n \<Rightarrow> step" where
  "intake_group d agency_div =
     with_found d agency_div (div_class ''intake-info'') (set_intake d)"

definition populations_group :: "'n dom \<Rightarrow> 'n \<Rightarrow> step" where
  "populations_group d agency_div =
     with_found d agency_div (div_class ''service-type'')
       (set_from_text d True ''populations_served'' populations_of)"

definition languages_group :: "'n dom \<Rightarrow> 'n \<Rightarrow> step" where
  "languages_group d agency_div =
     with_found d agency_div (div_class ''languages-spoken'')
       (set_from_text d True ''languages_spoken'' (\<lambda>t. t))"

definition last_update_group :: "'n dom \<Rightarrow> 'n \<Rightarrow> step" where
  "last_update_group d agency_div =
     with_found d agency_div (div_class ''last-update'')
       (set_from_text d True ''last_updated'' (\<lambda>t. t))"

text \<open>The statements of the single \<^verbatim>\<open>try\<close> block, in source order.\<close>

definition agency_steps :: "'n dom \<Rightarrow> 'n \<Rightarrow> step list" where
  "agency_steps d agency_div =
     [listing_group d agency_div, beds_group d agency_div, intake_group d agency_div,
      populations_group d agency_div, languages_group d agency_div,
      last_update_group d agency_div]"

text \<open>The handler logs the exception; then the record is returned.\<close>

definition parse_agency_data :: "'n dom \<Rightarrow> 'n \<Rightarrow> pydict" where
  "parse_agency_data d agency_div = fst (run_steps (agency_steps d agency_div) init_data)"

section \<open>ServiceTaxonomyExtractor: \<^verbatim>\<open>extract_service_types\<close>\<close>

record service =
  category :: string
  service_code :: string
  service_name :: string
  description :: string

text \<open>\<^verbatim>\<open>^(.+?)\s+\(([^)]+)\)$\<close>, matched at the start of the text\<close>

definition service_rx :: rx where
  "service_rx =
     seqs [Grp 1 (RepLazy AnyChar 1 None), Rep Space 1 None, Ch (Lit CHR ''(''),
           Grp 2 (Rep (NoneOf '')'') 1 None), Ch (Lit CHR '')''), Eol]"

text \<open>The header of an accordion item gives the category.\<close>

definition item_category :: "'n dom \<Rightarrow> 'n \<Rightarrow> exn + string" where
  "item_category d item =
     (case node_find d item (Sel [''h2''] [(''class'', ''accordion-header'')]) of
        Inl e \<Rightarrow> Inl e
      | Inr None \<Rightarrow> Inr ''Unknown''
      | Inr (Some header) \<Rightarrow>
          (case node_find d header (tag ''button'') of
             Inl e \<Rightarrow> Inl e
           | Inr None \<Rightarrow> Inr ''Unknown''
           | Inr (Some button) \<Rightarrow>
               (case node_text d button True of
                  Inl e \<Rightarrow> Inl e
                | Inr t \<Rightarrow> Inr (rstrip_ch CHR '':'' t))))"

text \<open>\<^verbatim>\<open>tooltip.get('title') or tooltip.get('data-bs-original-title') or
  tooltip.get('aria-label', '')\<close>: a missing or empty value passes on to the next call.\<close>

definition tooltip_description :: "'n dom \<Rightarrow> 'n \<Rightarrow> exn + string" where
  "tooltip_description d tooltip =
     (case node_get d tooltip ''title'' of
        Inl e \<Rightarrow> Inl e
      | Inr v1 \<Rightarrow>
          if v1 \<noteq> None \<and> v1 \<noteq> Some [] then Inr (the v1)
          else
            (case node_get d tooltip ''data-bs-original-title'' of
               Inl e \<Rightarrow> Inl e
             | Inr v2 \<Rightarrow>
                 if v2 \<noteq> None \<and> v2 \<noteq> Some [] then Inr (the v2)
                 else
                   (case node_get d tooltip ''aria-label'' of
                      Inl e \<Rightarrow> Inl e
                    | Inr v3 \<Rightarrow> Inr (case v3 of None \<Rightarrow> [] | Some a \<Rightarrow> a))))"

text \<open>One round of the loop over the tooltips: the entry it adds to
  \<^verbatim>\<open>tooltip_descriptions\<close>, if any.\<close>

definition tooltip_entry :: "'n dom \<Rightarrow> 'n \<Rightarrow> exn + (string \<times> string) option" where
  "tooltip_entry d tooltip =
     (case tooltip_description d tooltip of
        Inl e \<Rightarrow> Inl e
      | Inr descr \<Rightarrow>
          (case node_parent d tooltip of
             Inl e \<Rightarrow> Inl e
           | Inr None \<Rightarrow> Inr None
           | Inr (Some container) \<Rightarrow>
               (case node_find d container (tag ''label'') of
                  Inl e \<Rightarrow> Inl e
                | Inr None \<Rightarrow> Inr None
                | Inr (Some label_elem) \<Rightarrow>
                    (case node_text d label_elem True of
                       Inl e \<Rightarrow> Inl e
                     | Inr full_service_text \<Rightarrow> Inr (Some (full_service_text, descr))))))"

text \<open>The name and the code of a label text.\<close>

definition split_label :: "string \<Rightarrow> string \<times> string" where
  "split_label full_service_text =
     (case rx_match False service_rx full_service_text of
        Some (txt, c) \<Rightarrow> (strip (group c 1), strip (group c 2))
      | None \<Rightarrow> (full_service_text, []))"

text \<open>One round of the loop over the checkboxes: the entry it appends, if any.\<close>

definition checkbox_entry ::
  "'n dom \<Rightarrow> 'n \<Rightarrow> string \<Rightarrow> (string \<times> string) list \<Rightarrow> 'n \<Rightarrow> exn + service option" where
  "checkbox_entry d collapse cat tooltip_descriptions checkbox =
     (case node_get d checkbox ''id'' of
        Inl e \<Rightarrow> Inl e
      | Inr v \<Rightarrow>
          let checkbox_id = (case v of None \<Rightarrow> [] | Some i \<Rightarrow> i)
          in (case node_find d collapse (Sel [''label''] [(''for'', checkbox_id)]) of
                Inl e \<Rightarrow> Inl e
              | Inr None \<Rightarrow> Inr None
              | Inr (Some label_elem) \<Rightarrow>
                  (case node_text d label_elem True of
                     Inl e \<Rightarrow> Inl e
                   | Inr full_service_text \<Rightarrow>
                       if full_service_text \<noteq> [] then
                         (case split_label full_service_text of (name, code) \<Rightarrow>
                            Inr (Some \<lparr>category = cat, service_code = code,
                                       service_name = name,
                                       description =
                                         get_or tooltip_descriptions full_service_text []\<rparr>))
                       else Inr None)))"

text \<open>\<^verbatim>\<open>[x for x in xs if x is not None]\<close> on optional entries.\<close>

definition somes :: "'a option list \<Rightarrow> 'a list" where
  "somes xs = concat (map (\<lambda>x. case x of None \<Rightarrow> [] | Some y \<Rightarrow> [y]) xs)"

text \<open>One round of the loop over the accordion items: the entries it appends to
  \<^verbatim>\<open>service_types\<close>.\<close>

definition item_services :: "'n dom \<Rightarrow> 'n \<Rightarrow> exn + service list" where
  "item_services d item =
     (case item_category d item of
        Inl e \<Rightarrow> Inl e
      | Inr cat \<Rightarrow>
          (case node_find d item (Sel [''div''] [(''class'', ''accordion-collapse'')]) of
             Inl e \<Rightarrow> Inl e
           | Inr None \<Rightarrow> Inr []
           | Inr (Some collapse) \<Rightarrow>
               (case node_find_all d collapse (Sel [''span''] [(''class'', ''fa fa-question-circle'')]) of
                  Inl e \<Rightarrow> Inl e
                | Inr tooltips \<Rightarrow>
                    (case map_exn (tooltip_entry d) tooltips of
                       Inl e \<Rightarrow> Inl e
                     | Inr entries \<Rightarrow>
                         let tooltip_descriptions =
                               foldl (\<lambda>m (k, v). AList.update k v m) [] (somes entries)
                         in (case node_find_all d collapse (Sel [''input''] [(''type'', ''checkbox'')]) of
                               Inl e \<Rightarrow> Inl e
                             | Inr checkboxes \<Rightarrow>
                                 (case map_exn (checkbox_entry d collapse cat tooltip_descriptions)
                                         checkboxes of
                                    Inl e \<Rightarrow> Inl e
                                  | Inr found \<Rightarrow> Inr (somes found)))))))"

text \<open>The last loop: \<^verbatim>\<open>seen\<close> is the set of keys met so far, \<^verbatim>\<open>unique_services\<close> the
  list built so far.\<close>

fun unique_from :: "(string \<times> string) set \<Rightarrow> service list \<Rightarrow> service list \<Rightarrow> service list" where
  "unique_from seen unique_services [] = unique_services"
| "unique_from seen unique_services (s # ss) =
     (let key = (category s, service_name s)
      in if key \<notin> seen then unique_from (insert key seen) (unique_services @ [s]) ss
         else unique_from seen unique_services ss)"

definition unique_services :: "service list \<Rightarrow> service list" where
  "unique_services service_types = unique_from {} [] service_types"

text \<open>The scan before the last loop: the list \<^verbatim>\<open>service_types\<close>, or \<^const>\<open>None\<close> where
  the function returns the empty table early. The function has no handler, so an
  exception of the document leaves it.\<close>

definition scan_service_types :: "'n dom \<Rightarrow> 'n \<Rightarrow> exn + service list option" where
  "scan_service_types d soup =
     (case node_find d soup (Sel [''div''] [(''id'', ''filterContainer'')]) of
        Inl e \<Rightarrow> Inl e
      | Inr None \<Rightarrow> Inr None
      | Inr (Some filter_container) \<Rightarrow>
          (case node_find d filter_container (Sel [''div''] [(''id'', ''accordion'')]) of
             Inl e \<Rightarrow> Inl e
           | Inr None \<Rightarrow> Inr None
           | Inr (Some accordion) \<Rightarrow>
               (case node_find_all d accordion (Sel [''div''] [(''class'', ''accordion-item'')]) of
                  Inl e \<Rightarrow> Inl e
                | Inr accordion_items \<Rightarrow>
                    (case map_exn (item_services d) accordion_items of
                       Inl e \<Rightarrow> Inl e
                     | Inr per_item \<Rightarrow> Inr (Some (concat per_item))))))"

text \<open>The rows of the returned table.\<close>

definition extract_service_types :: "'n dom \<Rightarrow> 'n \<Rightarrow> exn + service list" where
  "extract_service_types d soup =
     (case scan_service_types d soup of
        Inl e \<Rightarrow> Inl e
      | Inr None \<Rightarrow> Inr []
      | Inr (Some service_types) \<Rightarrow> Inr (unique_services service_types))"

section \<open>Scripted documents\<close>

text \<open>A document given by the answers of its operations, with nodes numbered; a
  question that is not listed is answered with \<^verbatim>\<open>None\<close>, the empty list or the empty
  text.\<close>

definition scripted ::
  "((nat \<times> selector) \<times> (exn + nat option)) list \<Rightarrow>
   ((nat \<times> selector) \<times> (exn + nat list)) list \<Rightarrow>
   (nat \<times> (exn + string)) list \<Rightarrow>
   ((nat \<times> string) \<times> (exn + string option)) list \<Rightarrow>
   (nat \<times> nat) list \<Rightarrow> nat dom" where
  "scripted finds find_alls texts attrs parents =
     \<lparr>node_find = (\<lambda>n s. get_or finds (n, s) (Inr None)),
      node_find_all = (\<lambda>n s. get_or find_alls (n, s) (Inr [])),
      node_text = (\<lambda>n strp. get_or texts n (Inr [])),
      node_get = (\<lambda>n a. get_or attrs (n, a) (Inr None)),
      node_parent = (\<lambda>n. Inr (map_of parents n))\<rparr>"

section \<open>Notions used to state the properties\<close>

text \<open>A text of ASCII characters.\<close>

definition ascii :: "string \<Rightarrow> bool" where
  "ascii s = list_all (\<lambda>c. (of_char c :: nat) < 128) s"

text \<open>A token that \<^const>\<open>convert_to_24h\<close> does not recognise: after the rebinding it has
  neither \<^verbatim>\<open>AM\<close> nor \<^verbatim>\<open>PM\<close>, or the branch taken raises.\<close>

definition unrecognized :: "string \<Rightarrow> bool" where
  "unrecognized t =
     (let s = normalize_token t
      in (\<not> contains ''AM'' s \<and> \<not> contains ''PM'' s) \<or> isl (convert_body s))"

text \<open>A time with a minutes part: a digit, a colon and two digits in a row, at the start
  of the text or somewhere in it.\<close>

definition clock_at :: "string \<Rightarrow> bool" where
  "clock_at s =
     (case s of a # b # c # d # _ \<Rightarrow> is_digit a \<and> b = CHR '':'' \<and> is_digit c \<and> is_digit d
              | _ \<Rightarrow> False)"

fun has_clock :: "string \<Rightarrow> bool" where
  "has_clock [] = False"
| "has_clock (x # xs) = (clock_at (x # xs) \<or> has_clock xs)"

text \<open>The day of a match lies between its start day and its end day in the order of
  \<^const>\<open>day_list\<close>; a match without an end day has its start day as its end day.\<close>

definition in_range :: "string \<times> string \<times> string \<times> string \<Rightarrow> string \<Rightarrow> bool" where
  "in_range m day =
     (case m of (start_tok, end_tok, open_time, close_time) \<Rightarrow>
        day_index (canonical_day start_tok) \<le> day_index day \<and>
        day_index day \<le> day_index (canonical_day (if end_tok \<noteq> [] then end_tok else start_tok)))"

text \<open>The numbers of the capture groups of a pattern.\<close>

fun grps :: "rx \<Rightarrow> nat set" where
  "grps (Seq a b) = grps a \<union> grps b"
| "grps (Alt a b) = grps a \<union> grps b"
| "grps (Opt a) = grps a"
| "grps (Grp i a) = insert i (grps a)"
| "grps r = {}"



text \<open>A table whose second row has a cell that raises when its text is read.\<close>

definition broken_table :: "nat dom" where
  "broken_table =
     scripted []
       [((0, tag ''tr''), Inr [1, 2]), ((1, Sel [''th'', ''td''] []), Inr [3]),
        ((2, Sel [''th'', ''td''] []), Inr [4])]
       [(3, Inr ''Mon''), (4, Inl (LibError ''detached''))] [] []"

text \<open>The keys of an AgencyRecord: the eleven identity and operational fields, then for
  each weekday the open and close keys of the two schedules.\<close>

definition agency_keys :: "string list" where
  "agency_keys =
     identity_keys @
     concat (map (\<lambda>day. [hour_key ''agency'' day ''open'', hour_key ''agency'' day ''close'',
                          hour_key ''intake'' day ''open'', hour_key ''intake'' day ''close''])
                 week)"

text \<open>The listing block is missing, or it is there and has none of its seven parts.\<close>

definition listing_absent :: "'n dom \<Rightarrow> 'n \<Rightarrow> bool" where
  "listing_absent d agency_div =
     (case node_find d agency_div (div_class ''listing'') of
        Inl e \<Rightarrow> False
      | Inr None \<Rightarrow> True
      | Inr (Some listing_div) \<Rightarrow>
          list_all (\<lambda>sel. node_find d listing_div sel = Inr None)
            [tag ''strong'', div_class ''secondname'', div_class ''address'', div_class ''phone'',
             div_class ''web'', div_class ''wheel-access'', div_class ''hours''])"

text \<open>Every optional section of an agency block is missing.\<close>

definition sections_absent :: "'n dom \<Rightarrow> 'n \<Rightarrow> bool" where
  "sections_absent d agency_div =
     (listing_absent d agency_div \<and>
      list_all (\<lambda>c. node_find d agency_div (div_class c) = Inr None)
        [''available-beds'', ''intake-info'', ''service-type'', ''languages-spoken'',
         ''last-update''])"

text \<open>A step that keeps the keys of the record, whether it raises or not.\<close>

definition keeps_keys :: "step \<Rightarrow> bool" where
  "keeps_keys s = (\<forall>data. map fst data = agency_keys \<longrightarrow> map fst (fst (s data)) = agency_keys)"

text \<open>A schedule with the seven weekdays as its keys, each with the keys open and close.\<close>

definition schedule_ok :: "hours \<Rightarrow> bool" where
  "schedule_ok h = (map fst h = week \<and> (\<forall>p \<in> set h. map fst (snd p) = [''open'', ''close'']))"

text \<open>An agency block without any section, and one with an empty listing block.\<close>

definition empty_agency :: "nat dom" where
  "empty_agency = scripted [] [] [] [] []"

definition empty_listing :: "nat dom" where
  "empty_listing = scripted [((0, div_class ''listing''), Inr (Some 1))] [] [] [] []"


text \<open>The key by which services are compared.\<close>

definition key_of :: "service \<Rightarrow> string \<times> string" where
  "key_of s = (category s, service_name s)"

text \<open>The entries of a list that share their key with no earlier entry, in the order of
  the list.\<close>

definition first_seen :: "service list \<Rightarrow> service list" where
  "first_seen raw =
     map ((!) raw)
       (filter (\<lambda>i. key_of (raw ! i) \<notin> key_of ` set (take i raw)) [0 ..< length raw])"

text \<open>A document with one category and three checkboxes; the labels of the first two
  have the same name and different codes.\<close>

definition duplicate_services :: "nat dom" where
  "duplicate_services =
     scripted
       [((0, Sel [''div''] [(''id'', ''filterContainer'')]), Inr (Some 1)),
        ((1, Sel [''div''] [(''id'', ''accordion'')]), Inr (Some 2)),
        ((3, Sel [''h2''] [(''class'', ''accordion-header'')]), Inr (Some 4)),
        ((4, tag ''button''), Inr (Some 5)),
        ((3, Sel [''div''] [(''class'', ''accordion-collapse'')]), Inr (Some 6)),
        ((6, Sel [''label''] [(''for'', ''a'')]), Inr (Some 10)),
        ((6, Sel [''label''] [(''for'', ''b'')]), Inr (Some 11)),
        ((6, Sel [''label''] [(''for'', ''c'')]), Inr (Some 12))]
       [((2, Sel [''div''] [(''class'', ''accordion-item'')]), Inr [3]),
        ((6, Sel [''input''] [(''type'', ''checkbox'')]), Inr [7, 8, 9])]
       [(5, Inr ''Services:''), (10, Inr ''Detox (WM)''), (11, Inr ''Detox (XX)''),
        (12, Inr ''Outpatient'')]
       [((7, ''id''), Inr (Some ''a'')), ((8, ''id''), Inr (Some ''b'')),
        ((9, ''id''), Inr (Some ''c''))]
       []"


section \<open>Auxiliary facts\<close>

lemma case_tables_length: "length (lowers @ latin_lowers) = length (uppers @ latin_uppers)"
  by code_simp

lemma latin_lowers_high: "list_all (\<lambda>c. \<not> (of_char c :: nat) < 128) latin_lowers"
  by code_simp

lemma lower_ch_fixed:
  "lower_ch c = k \<Longrightarrow> k \<notin> set (lowers @ latin_lowers) \<Longrightarrow> c = k"
proof (cases "map_of (zip (uppers @ latin_uppers) (lowers @ latin_lowers)) c")
  case None
  assume "lower_ch c = k" with None show ?thesis by (simp add: lower_ch_def)
next
  case (Some l)
  assume k: "lower_ch c = k" "k \<notin> set (lowers @ latin_lowers)"
  from Some have "(c, l) \<in> set (zip (uppers @ latin_uppers) (lowers @ latin_lowers))"
    by (rule map_of_SomeD)
  then have "l \<in> set (lowers @ latin_lowers)" by (rule set_zip_rightD)
  with k Some show ?thesis by (simp add: lower_ch_def)
qed

lemma blank_not_lower: "CHR '' '' \<notin> set (lowers @ latin_lowers)"
  by code_simp

lemma spaces_not_upper: "list_all (\<lambda>c. c \<notin> set (uppers @ latin_uppers)) spaces"
  by code_simp

lemma lower_ch_space: "is_space c \<Longrightarrow> lower_ch c = c"
proof -
  assume "is_space c"
  with spaces_not_upper have "c \<notin> set (uppers @ latin_uppers)"
    by (auto simp: is_space_def list_all_iff)
  moreover have "(map_of (zip (uppers @ latin_uppers) (lowers @ latin_lowers)) c = None) =
      (c \<notin> set (uppers @ latin_uppers))"
    using case_tables_length [symmetric] by (rule map_of_zip_is_None)
  ultimately have "map_of (zip (uppers @ latin_uppers) (lowers @ latin_lowers)) c = None"
    by blast
  then show ?thesis by (simp add: lower_ch_def)
qed

lemma colon_only: "cls_ok ic (Lit CHR '':'') x \<Longrightarrow> x = CHR '':''"
proof (cases ic)
  case False
  assume "cls_ok ic (Lit CHR '':'') x" with False show ?thesis by simp
next
  case True
  assume "cls_ok ic (Lit CHR '':'') x"
  moreover have "lower_ch CHR '':'' = CHR '':''" by code_simp
  ultimately have "lower_ch x = CHR '':''" using True by simp
  moreover have "CHR '':'' \<notin> set (lowers @ latin_lowers)" by code_simp
  ultimately show ?thesis by (rule lower_ch_fixed)
qed

lemma ms_suffix: "(s', c') \<in> set (ms ic r (s, c)) \<Longrightarrow> suffix s' s"
proof (induction r arbitrary: s c s' c')
  case (Ch k)
  then show ?case by (auto split: list.splits if_splits intro: suffix_ConsI)
next
  case (Seq a b)
  then obtain s1 c1 where 1: "(s1, c1) \<in> set (ms ic a (s, c))"
    and 2: "(s', c') \<in> set (ms ic b (s1, c1))" by auto
  from Seq.IH(1) [OF 1] Seq.IH(2) [OF 2] show ?case by (rule suffix_order.trans [rotated])
next
  case (Grp i a)
  then show ?case by auto
qed (auto simp: suffix_drop split: if_splits)

lemma no_clock_suffix: "suffix s' s \<Longrightarrow> \<not> has_clock s \<Longrightarrow> \<not> has_clock s'"
  by (induction s) (auto simp: suffix_Cons)

lemma run_length_le: "run_length ic k hi s \<le> length (takeWhile (cls_ok ic k) s)"
  by (simp add: run_length_def Let_def split: option.splits)

lemma run_length_ok:
  assumes "j \<le> run_length ic k hi s" "i < j"
  shows "i < length s \<and> cls_ok ic k (s ! i)"
proof -
  let ?t = "takeWhile (cls_ok ic k) s"
  from assms run_length_le [of ic k hi s] have i: "i < length ?t" by simp
  then have "?t ! i \<in> set ?t" by simp
  then have "cls_ok ic k (?t ! i)" by (rule set_takeWhileD [THEN conjunct2])
  moreover have "?t ! i = s ! i" using i by (rule takeWhile_nth)
  moreover have "length ?t \<le> length s" by (rule length_takeWhile_le)
  ultimately show ?thesis using i by simp
qed

lemma run_length_hi: "run_length ic k (Some h) s \<le> h"
  by (simp add: run_length_def Let_def)

lemma ms_Seq_iff:
  "p \<in> set (ms ic (Seq a b) st) \<longleftrightarrow> (\<exists>q \<in> set (ms ic a st). p \<in> set (ms ic b q))"
  by auto

lemma ms_Eps_iff: "p \<in> set (ms ic Eps st) \<longleftrightarrow> p = st"
  by auto

lemma ms_Rep_iff:
  "(s', c') \<in> set (ms ic (Rep k lo hi) (s, c)) \<longleftrightarrow>
     c' = c \<and> (\<exists>j. lo \<le> j \<and> j \<le> run_length ic k hi s \<and> s' = drop j s)"
  by (auto simp: image_iff)

lemma ms_clock:
  assumes "(s', c') \<in> set (ms ic clock_rx (s, c))"
  shows "has_clock s"
proof -
  from assms have "\<exists>q1 \<in> set (ms ic (Rep Digit 1 (Some 2)) (s, c)).
      \<exists>q2 \<in> set (ms ic (Ch (Lit CHR '':'')) q1).
        (s', c') \<in> set (ms ic (Rep Digit 2 (Some 2)) q2)"
    by (simp only: clock_rx_def seqs.simps ms_Seq_iff ms_Eps_iff) blast
  then obtain q1 q2 where
    q1: "q1 \<in> set (ms ic (Rep Digit 1 (Some 2)) (s, c))" and
    q2: "q2 \<in> set (ms ic (Ch (Lit CHR '':'')) q1)" and
    q3: "(s', c') \<in> set (ms ic (Rep Digit 2 (Some 2)) q2)" by blast
  obtain s1 c1 where p1: "q1 = (s1, c1)" by (cases q1)
  obtain s2 c2 where p2: "q2 = (s2, c2)" by (cases q2)
  note 1 = q1 [unfolded p1] and 2 = q2 [unfolded p1 p2] and 3 = q3 [unfolded p2]
  from 1 obtain j where j: "1 \<le> j" "j \<le> run_length ic Digit (Some 2) s" "s1 = drop j s"
    by (simp only: ms_Rep_iff) blast
  from 2 obtain x where "s1 = x # s2" "cls_ok ic (Lit CHR '':'') x"
    by (auto split: list.splits if_splits simp del: cls_ok.simps)
  then have s1: "s1 = CHR '':'' # s2" using colon_only by blast
  from 3 obtain m where m: "2 \<le> m" "m \<le> run_length ic Digit (Some 2) s2"
    by (simp only: ms_Rep_iff) blast
  from run_length_ok [OF m(2), of 0] run_length_ok [OF m(2), of 1] m(1)
  obtain x y r where s2: "s2 = x # y # r" "is_digit x" "is_digit y"
    by (cases s2; cases "tl s2") auto
  from run_length_ok [OF j(2), of "j - 1"] j(1)
  have d: "j - 1 < length s \<and> is_digit (s ! (j - 1))" by simp
  have "s = take (j - 1) s @ (s ! (j - 1)) # drop j s"
    using d j(1) by (metis Suc_diff_1 id_take_nth_drop less_eq_Suc_le One_nat_def)
  then have "suffix ((s ! (j - 1)) # CHR '':'' # x # y # r) s"
    using j(3) s1 s2(1) by (metis suffixI)
  moreover have "has_clock ((s ! (j - 1)) # CHR '':'' # x # y # r)"
    using d s2 by (simp add: clock_at_def)
  ultimately show ?thesis using no_clock_suffix by blast
qed

lemma ms_text_time_none: "\<not> has_clock s \<Longrightarrow> ms ic (Grp i text_time_rx) (s, c) = []"
proof -
  assume n: "\<not> has_clock s"
  have "ms ic clock_rx (s, c) = []"
  proof (rule ccontr)
    assume "ms ic clock_rx (s, c) \<noteq> []"
    then have "hd (ms ic clock_rx (s, c)) \<in> set (ms ic clock_rx (s, c))" by simp
    then show False
      using n ms_clock [of "fst (hd (ms ic clock_rx (s, c)))" "snd (hd (ms ic clock_rx (s, c)))" ic s c]
      by simp
  qed
  then show ?thesis by (simp add: text_time_rx_def)
qed

lemma ms_Seq_none:
  assumes "\<And>s' c'. (s', c') \<in> set (ms ic a st) \<Longrightarrow> ms ic b (s', c') = []"
  shows "ms ic (Seq a b) st = []"
  using assms by auto

lemma ms_day_range_none:
  assumes "\<not> has_clock s"
  shows "ms True day_range_rx (s, c) = []"
proof -
  have tail: "ms True (Seq (Grp 3 text_time_rx) rest) (s', c') = []" if "suffix s' s" for s' c' rest
    using that assms no_clock_suffix ms_text_time_none by simp
  have step: "ms True (Seq a b) (s1, c1) = []"
    if "suffix s1 s" and "\<And>s2 c2. suffix s2 s \<Longrightarrow> ms True b (s2, c2) = []" for a b s1 c1
  proof (rule ms_Seq_none)
    fix s' c' assume "(s', c') \<in> set (ms True a (s1, c1))"
    then have "suffix s' s1" by (rule ms_suffix)
    with that(1) have "suffix s' s" by (blast intro: suffix_order.trans)
    then show "ms True b (s', c') = []" by (rule that(2))
  qed
  show ?thesis
    unfolding day_range_rx_def seqs.simps
    apply (rule step, rule suffix_order.refl)
    apply (rule step, assumption)
    apply (rule step, assumption)
    apply (rule step, assumption)
    apply (rule step, assumption)
    apply (rule tail, assumption)
    done
qed

lemma findall_none:
  "\<not> has_clock s \<Longrightarrow> findall_from True day_range_rx k s = []"
proof (induction s arbitrary: k)
  case Nil
  then show ?case by (simp add: rx_match_def ms_day_range_none)
next
  case (Cons x xs)
  then show ?case by (simp add: rx_match_def ms_day_range_none)
qed

lemma day_ranges_none: "\<not> has_clock t \<Longrightarrow> day_ranges t = []"
  by (simp add: day_ranges_def findall_def findall_none)

lemma upper_ch_id:
  assumes "c \<notin> set lowers" "(of_char c :: nat) < 128"
  shows "upper_ch c = c"
proof -
  from assms(2) latin_lowers_high have "c \<notin> set latin_lowers" by (auto simp: list_all_iff)
  with assms(1) have "c \<notin> set (lowers @ latin_lowers)" by simp
  moreover have "(map_of (zip (lowers @ latin_lowers) (uppers @ latin_uppers)) c = None) =
      (c \<notin> set (lowers @ latin_lowers))"
    using case_tables_length by (rule map_of_zip_is_None)
  ultimately have "map_of (zip (lowers @ latin_lowers) (uppers @ latin_uppers)) c = None"
    by blast
  then show ?thesis by (simp add: upper_ch_def)
qed

lemma normalize_token_id:
  "ascii t \<Longrightarrow> \<forall>c \<in> set t. \<not> is_space c \<and> c \<notin> set lowers \<Longrightarrow> normalize_token t = t"
  by (induction t)
     (simp_all add: ascii_def normalize_token_def remove_spaces_def upper_def upper_ch_id)

lemma hours_table_body_raises:
  "snd (hours_table_body d table hours) = Some e \<Longrightarrow> fst (hours_table_body d table hours) = hours"
  by (auto simp: hours_table_body_def split: sum.splits if_splits)

lemma prefix_lower_Cons:
  "prefix (x # xs) (lower s) \<longleftrightarrow> (\<exists>a s'. s = a # s' \<and> lower_ch a = x \<and> prefix xs (lower s'))"
  by (cases s) (auto simp: lower_def)

lemma lower_ch_literals:
  "lower_ch CHR ''2'' = CHR ''2''" "lower_ch CHR ''4'' = CHR ''4''"
  "lower_ch CHR ''/'' = CHR ''/''" "lower_ch CHR ''7'' = CHR ''7''"
  "lower_ch CHR ''h'' = CHR ''h''" "lower_ch CHR ''o'' = CHR ''o''"
  "lower_ch CHR ''u'' = CHR ''u''" "lower_ch CHR ''r'' = CHR ''r''"
  "lower_ch CHR ''s'' = CHR ''s''"
  by code_simp+

lemma match_24_7:
  assumes "prefix ''24/7'' (lower s)"
  shows "ms True always_open_rx (s, c) \<noteq> []"
proof -
  from assms obtain a1 a2 a3 a4 r where s: "s = a1 # a2 # a3 # a4 # r"
    and l: "lower_ch a1 = CHR ''2''" "lower_ch a2 = CHR ''4''" "lower_ch a3 = CHR ''/''"
      "lower_ch a4 = CHR ''7''"
    by (auto simp: prefix_lower_Cons)
  show ?thesis
    by (simp add: s l always_open_rx_def lit_def lower_ch_literals)
qed

lemma match_24_hours:
  assumes "prefix ''24 hours'' (lower s)"
  shows "ms True always_open_rx (s, c) \<noteq> []"
proof -
  from assms obtain a1 a2 a3 a4 a5 a6 a7 a8 r where
    s: "s = a1 # a2 # a3 # a4 # a5 # a6 # a7 # a8 # r"
    and l: "lower_ch a1 = CHR ''2''" "lower_ch a2 = CHR ''4''" "lower_ch a3 = CHR '' ''"
      "lower_ch a4 = CHR ''h''" "lower_ch a5 = CHR ''o''" "lower_ch a6 = CHR ''u''"
      "lower_ch a7 = CHR ''r''" "lower_ch a8 = CHR ''s''"
    by (auto simp: prefix_lower_Cons)
  from l(3) have a3: "a3 = CHR '' ''" by (rule lower_ch_fixed) (rule blank_not_lower)
  have sp: "is_space CHR '' ''" by (simp add: is_space_def spaces_def)
  have a4: "\<not> is_space a4"
  proof
    assume "is_space a4"
    with l(4) lower_ch_space [of a4] have "is_space CHR ''h''" by simp
    then show False by (simp add: is_space_def spaces_def)
  qed
  have run: "run_length True Space None (a3 # a4 # a5 # a6 # a7 # a8 # r) = Suc 0"
    by (simp add: run_length_def a3 sp a4)
  show ?thesis
    by (simp add: s l always_open_rx_def lit_def lower_ch_literals run)
qed

lemma search_from_contains:
  assumes "\<And>s. prefix sub (lower s) \<Longrightarrow> rx_match ic r s \<noteq> None" and "sub \<noteq> []"
  shows "contains sub (lower t) \<Longrightarrow> rx_search ic r t \<noteq> None"
proof (induction t)
  case Nil
  with assms(2) show ?case by (simp add: lower_def)
next
  case (Cons x xs)
  from Cons.prems have "prefix sub (lower (x # xs)) \<or> contains sub (lower xs)"
    by (simp add: lower_def)
  then show ?case
  proof
    assume "prefix sub (lower (x # xs))"
    then have "rx_match ic r (x # xs) \<noteq> None" by (rule assms(1))
    then show ?thesis by (auto split: option.splits)
  next
    assume "contains sub (lower xs)"
    then have "rx_search ic r xs \<noteq> None" by (rule Cons.IH)
    then show ?thesis by (auto split: option.splits)
  qed
qed

lemma rx_match_Some: "ms ic r (s, []) \<noteq> [] \<Longrightarrow> rx_match ic r s \<noteq> None"
  by (simp add: rx_match_def split: list.splits)

lemma all_day: 
  "foldl (\<lambda>h day. AList.update day (open_close ''00:00'' ''23:59'') h) default_hours
     (map fst default_hours) = map (\<lambda>day. (day, [(''open'', ''00:00''), (''close'', ''23:59'')])) week"
  by code_simp

lemma map_of_fold_update:
  "map_of (foldl (\<lambda>h i. AList.update (f i) v h) hours js) k =
     (if k \<in> f ` set js then Some v else map_of hours k)"
  by (induction js arbitrary: hours) (auto simp: update_conv')

lemma day_list_first: "\<forall>i \<in> set [0..<7]. index_of (day_list ! i) day_list = i"
  by code_simp

lemma day_list_index: "\<forall>x \<in> set day_list. index_of x day_list < 7 \<and> day_list ! index_of x day_list = x"
  by code_simp

lemma week_in_day_list: "set week \<subseteq> set day_list"
  by code_simp

lemma day_index_order:
  "map day_index [''monday'', ''tuesday'', ''wednesday'', ''thursday'', ''friday'', ''saturday'',
     ''sunday''] = [0, 1, 2, 3, 4, 5, 6]"
  by code_simp

lemma get_or_in: "k \<in> fst ` set m \<Longrightarrow> get_or m k dflt \<in> snd ` set m"
proof -
  assume "k \<in> fst ` set m"
  then obtain v where v: "map_of m k = Some v" by (metis map_of_eq_None_iff not_Some_eq)
  then have "(k, v) \<in> set m" by (rule map_of_SomeD)
  then show ?thesis using v by (force simp: get_or_def)
qed

lemma canonical_day_in: "lower tok \<in> fst ` set day_mapping \<Longrightarrow> canonical_day tok \<in> set day_list"
  using get_or_in [of "lower tok" day_mapping "lower tok"] by (simp add: canonical_day_def day_list_def)

lemma nth_day_iff:
  assumes "day \<in> set week" "e < 7"
  shows "day \<in> (!) day_list ` set [s ..< e + 1] \<longleftrightarrow> s \<le> day_index day \<and> day_index day \<le> e"
proof
  assume "day \<in> (!) day_list ` set [s ..< e + 1]"
  then obtain i where i: "s \<le> i" "i \<le> e" "day = day_list ! i" by auto
  with assms(2) have "i \<in> set [0..<7]" by simp
  with day_list_first have "index_of (day_list ! i) day_list = i" by blast
  with i show "s \<le> day_index day \<and> day_index day \<le> e" by (simp add: day_index_def)
next
  assume a: "s \<le> day_index day \<and> day_index day \<le> e"
  from assms(1) week_in_day_list have "day \<in> set day_list" by blast
  with day_list_index have eq: "day = day_list ! day_index day" by (simp add: day_index_def)
  from a have m: "day_index day \<in> set [s ..< e + 1]" by auto
  from eq m show "day \<in> (!) day_list ` set [s ..< e + 1]" by (rule image_eqI)
qed

lemma set_update_subset: "set (AList.update k v al) \<subseteq> insert (k, v) (set al)"
  by (induction al) auto

lemma schedule_ok_default: "schedule_ok default_hours"
  by (simp add: schedule_ok_def default_hours_def open_close_def week_def)

lemma schedule_ok_update:
  assumes "schedule_ok h" "k \<in> set week"
  shows "schedule_ok (AList.update k (open_close a b) h)"
proof -
  from assms have "map fst (AList.update k (open_close a b) h) = week"
    by (simp add: schedule_ok_def update_keys)
  moreover have "\<forall>p \<in> set (AList.update k (open_close a b) h). map fst (snd p) = [''open'', ''close'']"
    using assms(1) set_update_subset [of k "open_close a b" h]
    by (auto simp: schedule_ok_def open_close_def)
  ultimately show ?thesis by (simp add: schedule_ok_def)
qed

lemma foldl_invariant:
  "P a \<Longrightarrow> (\<And>a x. P a \<Longrightarrow> x \<in> set xs \<Longrightarrow> P (f a x)) \<Longrightarrow> P (foldl f a xs)"
  by (induction xs arbitrary: a) auto

lemma day_list_week: "\<forall>i \<in> set [0..<7]. day_list ! i \<in> set week"
  by code_simp

lemma schedule_ok_apply_range: "schedule_ok h \<Longrightarrow> schedule_ok (apply_range h m)"
proof -
  assume ok: "schedule_ok h"
  obtain s e ot ct where m: "m = (s, e, ot, ct)" by (cases m)
  let ?e = "if e \<noteq> [] then canonical_day e else canonical_day s"
  let ?f = "foldl (\<lambda>h i. AList.update (day_list ! i)
        (open_close (convert_to_24h ot) (convert_to_24h ct)) h) h
        [day_index (canonical_day s) ..< day_index ?e + 1]"
  have eq: "apply_range h m =
      (if canonical_day s \<in> set day_list \<and> ?e \<in> set day_list then ?f else h)"
    by (simp only: m apply_range_def Let_def prod.case)
  show ?thesis
  proof (cases "canonical_day s \<in> set day_list \<and> ?e \<in> set day_list")
    case False
    show ?thesis using ok by (simp only: eq if_not_P [OF False])
  next
    case True
    with day_list_index have e7: "day_index ?e < 7" unfolding day_index_def by blast
    have "schedule_ok ?f"
    proof (rule foldl_invariant [where P = schedule_ok], rule ok)
      fix a i assume a: "schedule_ok a" and "i \<in> set [day_index (canonical_day s) ..< day_index ?e + 1]"
      with e7 have "i \<in> set [0..<7]" by auto
      with day_list_week have "day_list ! i \<in> set week" by blast
      with a show "schedule_ok (AList.update (day_list ! i)
        (open_close (convert_to_24h ot) (convert_to_24h ct)) a)" by (rule schedule_ok_update)
    qed
    then show ?thesis by (simp only: eq if_P [OF True])
  qed
qed

lemma schedule_ok_parse_hours: "schedule_ok (parse_hours t)"
proof -
  have dk: "map fst default_hours = week" using schedule_ok_default by (simp add: schedule_ok_def)
  have 1: "schedule_ok (foldl (\<lambda>h day. AList.update day (open_close ''00:00'' ''23:59'') h)
      default_hours (map fst default_hours))"
  proof (rule foldl_invariant [where P = schedule_ok], rule schedule_ok_default)
    fix a x assume a: "schedule_ok a" and "x \<in> set (map fst default_hours)"
    then have "x \<in> set week" by (simp only: dk)
    with a show "schedule_ok (AList.update x (open_close ''00:00'' ''23:59'') a)"
      by (rule schedule_ok_update)
  qed
  have 2: "schedule_ok (foldl apply_range default_hours (day_ranges t))"
    by (rule foldl_invariant [where P = schedule_ok], rule schedule_ok_default)
       (rule schedule_ok_apply_range)
  show ?thesis using 1 2 schedule_ok_default by (simp add: parse_hours_def)
qed

lemma table_days_week: "snd ` set table_day_mapping \<subseteq> set week"
  by code_simp

lemma schedule_ok_table_cell: "schedule_ok h \<Longrightarrow> schedule_ok (table_cell h p)"
proof -
  assume ok: "schedule_ok h"
  obtain header time_cell where p: "p = (header, time_cell)" by (cases p)
  show ?thesis
  proof (cases "map_of table_day_mapping (lower header)")
    case None
    then show ?thesis using ok by (simp add: p table_cell_def)
  next
    case (Some day_key)
    then have "(lower header, day_key) \<in> set table_day_mapping" by (rule map_of_SomeD)
    then have "day_key \<in> set week" using table_days_week by force
    then show ?thesis using ok Some
      by (auto simp: p table_cell_def schedule_ok_update split: option.splits)
  qed
qed

lemma schedule_ok_table_body:
  "schedule_ok h \<Longrightarrow> schedule_ok (fst (hours_table_body d table h))"
proof -
  assume ok: "schedule_ok h"
  have "schedule_ok (foldl table_cell h ps)" for ps
    by (rule foldl_invariant [where P = schedule_ok], rule ok) (rule schedule_ok_table_cell)
  then show ?thesis using ok
    by (auto simp: hours_table_body_def split: sum.splits)
qed

lemma schedule_ok_parse_hours_table: "schedule_ok (parse_hours_table d table)"
  unfolding parse_hours_table_def using schedule_ok_default by (rule schedule_ok_table_body)

lemma map_const: "\<forall>x \<in> set xs. f x = c \<Longrightarrow> map f xs = replicate (length xs) c"
  by (induction xs) auto

lemma schedule_ok_shape:
  assumes "schedule_ok h"
  shows "map fst h = [''sunday'', ''monday'', ''tuesday'', ''wednesday'', ''thursday'', ''friday'',
           ''saturday''] \<and>
         map (\<lambda>p. map fst (snd p)) h = replicate 7 [''open'', ''close'']"
proof -
  from assms have k: "map fst h = week" by (simp add: schedule_ok_def)
  have "length (map fst h) = length week" by (simp only: k)
  then have "length h = 7" by (simp add: week_def)
  moreover from assms have "map (\<lambda>p. map fst (snd p)) h = replicate (length h) [''open'', ''close'']"
    by (intro map_const) (simp add: schedule_ok_def)
  ultimately show ?thesis using k by (simp add: week_def)
qed

lemma agency_keys_init: "map fst init_data = agency_keys"
  by code_simp

lemma init_data_empty: "init_data = map (\<lambda>k. (k, [])) agency_keys"
  by code_simp

lemma agency_keys_count: "length agency_keys = 39 \<and> distinct agency_keys"
  by code_simp

lemma identity_in_keys: "set identity_keys \<subseteq> set agency_keys"
  by code_simp

lemma hour_keys_in: "\<forall>day \<in> set week. 
   hour_key ''agency'' day ''open'' \<in> set agency_keys \<and> hour_key ''agency'' day ''close'' \<in> set agency_keys \<and>
   hour_key ''intake'' day ''open'' \<in> set agency_keys \<and> hour_key ''intake'' day ''close'' \<in> set agency_keys"
  by code_simp

lemma update_keeps_keys:
  "k \<in> set agency_keys \<Longrightarrow> map fst data = agency_keys \<Longrightarrow>
     map fst (AList.update k v data) = agency_keys"
  by (simp add: update_keys)

lemma keeps_keys_set_from_text:
  "key \<in> set agency_keys \<Longrightarrow> keeps_keys (set_from_text d strp key f node)"
  by (auto simp: keeps_keys_def set_from_text_def update_keeps_keys split: sum.splits)

lemma keeps_keys_with_found:
  "(\<And>x. keeps_keys (block x)) \<Longrightarrow> keeps_keys (with_found d node sel block)"
  by (auto simp: keeps_keys_def with_found_def split: sum.splits option.splits)

lemma keeps_keys_run_steps:
  "(\<And>s. s \<in> set ss \<Longrightarrow> keeps_keys s) \<Longrightarrow> keeps_keys (run_steps ss)"
proof (induction ss)
  case Nil
  show ?case by (simp add: keeps_keys_def)
next
  case (Cons s ss)
  have s: "keeps_keys s" and r: "keeps_keys (run_steps ss)" using Cons by simp_all
  show ?case unfolding keeps_keys_def
  proof (intro allI impI)
    fix data :: pydict assume k: "map fst data = agency_keys"
    obtain data' r' where sd: "s data = (data', r')" by (cases "s data")
    with s k have k': "map fst data' = agency_keys" by (auto simp: keeps_keys_def)
    show "map fst (fst (run_steps (s # ss) data)) = agency_keys"
    proof (cases r')
      case None
      with sd r k' show ?thesis by (simp add: keeps_keys_def)
    next
      case (Some e)
      with sd k' show ?thesis by simp
    qed
  qed
qed

lemma keeps_keys_set_day:
  assumes "kind = ''agency'' \<or> kind = ''intake''" "fst item \<in> set week"
  shows "keeps_keys (set_day kind item)"
proof -
  obtain day tms where i: "item = (day, tms)" by (cases item)
  with assms(2) hour_keys_in assms(1)
  have "hour_key kind day ''open'' \<in> set agency_keys \<and> hour_key kind day ''close'' \<in> set agency_keys"
    by auto
  then show ?thesis
    by (auto simp: keeps_keys_def set_day_def i update_keeps_keys Let_def split: option.splits)
qed

lemma keeps_keys_set_hours:
  assumes "kind = ''agency'' \<or> kind = ''intake''"
  shows "keeps_keys (set_hours d kind table)"
  unfolding set_hours_def
proof (rule keeps_keys_run_steps)
  fix s assume "s \<in> set (map (set_day kind) (parse_hours_table d table))"
  then obtain item where it: "item \<in> set (parse_hours_table d table)" "s = set_day kind item"
    by auto
  from it(1) have "fst item \<in> set (map fst (parse_hours_table d table))" by simp
  also have "map fst (parse_hours_table d table) = week"
    using schedule_ok_parse_hours_table [of d table] by (simp add: schedule_ok_def)
  finally show "keeps_keys s" using assms it(2) by (simp add: keeps_keys_set_day)
qed

lemma identity_key_simps:
  "''agency_name'' \<in> set agency_keys" "''agency_name_secondary'' \<in> set agency_keys"
  "''agency_address'' \<in> set agency_keys" "''agency_phone'' \<in> set agency_keys"
  "''agency_website'' \<in> set agency_keys" "''agency_wheelchair_access'' \<in> set agency_keys"
  "''available_beds'' \<in> set agency_keys" "''intake_open_appointments'' \<in> set agency_keys"
  "''populations_served'' \<in> set agency_keys" "''languages_spoken'' \<in> set agency_keys"
  "''last_updated'' \<in> set agency_keys"
  by code_simp+

lemma keeps_keys_set_phone: "keeps_keys (set_phone d n)"
  by (auto simp: keeps_keys_def set_phone_def update_keeps_keys identity_key_simps
      split: sum.splits option.splits)

lemma keeps_keys_set_website: "keeps_keys (set_website d n)"
  by (auto simp: keeps_keys_def set_website_def update_keeps_keys identity_key_simps
      split: sum.splits option.splits)

lemma keeps_keys_set_appointments: "keeps_keys (set_appointments t)"
  by (auto simp: keeps_keys_def set_appointments_def update_keeps_keys identity_key_simps
      split: sum.splits option.splits)

lemma keeps_keys_agency_hours: "keeps_keys (set_hours d ''agency'' table)"
  by (rule keeps_keys_set_hours) simp

lemma keeps_keys_intake_hours: "keeps_keys (set_hours d ''intake'' table)"
  by (rule keeps_keys_set_hours) simp

lemma keeps_keys_set_intake: "keeps_keys (set_intake d n)"
proof -
  have "keeps_keys (run_steps [set_appointments t,
      with_found d n (tag ''table'') (set_hours d ''intake'')])" for t
  proof (rule keeps_keys_run_steps)
    fix s assume "s \<in> set [set_appointments t, with_found d n (tag ''table'') (set_hours d ''intake'')]"
    then have "s = set_appointments t \<or> s = with_found d n (tag ''table'') (set_hours d ''intake'')"
      by simp
    then show "keeps_keys s"
      using keeps_keys_set_appointments [of t]
        keeps_keys_with_found [of "set_hours d ''intake''" d n "tag ''table''"]
        keeps_keys_intake_hours [of d]
      by blast
  qed
  then show ?thesis
    by (auto simp: keeps_keys_def set_intake_def split: sum.splits)
qed

lemma keeps_keys_name: "keeps_keys (name_group d l)"
  unfolding name_group_def
  by (intro keeps_keys_with_found keeps_keys_set_from_text identity_key_simps)

lemma keeps_keys_secondary: "keeps_keys (secondary_group d l)"
  unfolding secondary_group_def
  by (intro keeps_keys_with_found keeps_keys_set_from_text identity_key_simps)

lemma keeps_keys_address: "keeps_keys (address_group d l)"
  unfolding address_group_def
  by (intro keeps_keys_with_found keeps_keys_set_from_text identity_key_simps)

lemma keeps_keys_phone: "keeps_keys (phone_group d l)"
  unfolding phone_group_def
  by (intro keeps_keys_with_found keeps_keys_set_phone)

lemma keeps_keys_website: "keeps_keys (website_group d l)"
  unfolding website_group_def
  by (intro keeps_keys_with_found keeps_keys_set_website)

lemma keeps_keys_wheelchair: "keeps_keys (wheelchair_group d l)"
  unfolding wheelchair_group_def
  by (intro keeps_keys_with_found keeps_keys_set_from_text identity_key_simps)

lemma keeps_keys_hours: "keeps_keys (hours_group d l)"
  unfolding hours_group_def
  by (intro keeps_keys_with_found keeps_keys_agency_hours)

lemma keeps_keys_listing_steps: "s \<in> set (listing_steps d l) \<Longrightarrow> keeps_keys s"
  using keeps_keys_name [of d l] keeps_keys_secondary [of d l] keeps_keys_address [of d l]
    keeps_keys_phone [of d l] keeps_keys_website [of d l] keeps_keys_wheelchair [of d l]
    keeps_keys_hours [of d l]
  by (simp only: listing_steps_def set_simps insert_iff empty_iff) blast

lemma keeps_keys_listing: "keeps_keys (listing_group d n)"
  unfolding listing_group_def
  by (intro keeps_keys_with_found keeps_keys_run_steps) (rule keeps_keys_listing_steps)

lemma keeps_keys_beds: "keeps_keys (beds_group d n)"
  unfolding beds_group_def
  by (intro keeps_keys_with_found keeps_keys_set_from_text identity_key_simps)

lemma keeps_keys_intake: "keeps_keys (intake_group d n)"
  unfolding intake_group_def
  by (intro keeps_keys_with_found keeps_keys_set_intake)

lemma keeps_keys_populations: "keeps_keys (populations_group d n)"
  unfolding populations_group_def
  by (intro keeps_keys_with_found keeps_keys_set_from_text identity_key_simps)

lemma keeps_keys_languages: "keeps_keys (languages_group d n)"
  unfolding languages_group_def
  by (intro keeps_keys_with_found keeps_keys_set_from_text identity_key_simps)

lemma keeps_keys_last_update: "keeps_keys (last_update_group d n)"
  unfolding last_update_group_def
  by (intro keeps_keys_with_found keeps_keys_set_from_text identity_key_simps)

lemma keeps_keys_agency_steps: "s \<in> set (agency_steps d n) \<Longrightarrow> keeps_keys s"
  using keeps_keys_listing [of d n] keeps_keys_beds [of d n] keeps_keys_intake [of d n]
    keeps_keys_populations [of d n] keeps_keys_languages [of d n] keeps_keys_last_update [of d n]
  by (simp only: agency_steps_def set_simps insert_iff empty_iff) blast

lemma parse_agency_data_keys: "map fst (parse_agency_data d n) = agency_keys"
proof -
  have "keeps_keys (run_steps (agency_steps d n))"
    by (rule keeps_keys_run_steps) (rule keeps_keys_agency_steps)
  then show ?thesis using agency_keys_init by (simp add: parse_agency_data_def keeps_keys_def)
qed

lemma with_found_absent:
  "node_find d node sel = Inr None \<Longrightarrow> with_found d node sel block data = (data, None)"
  by (simp add: with_found_def)

lemma listing_absent_step:
  assumes "listing_absent d n"
  shows "listing_group d n data = (data, None)"
proof (cases "node_find d n (div_class ''listing'')")
  case (Inl e)
  with assms show ?thesis by (simp add: listing_absent_def)
next
  case (Inr r)
  show ?thesis
  proof (cases r)
    case None
    with Inr show ?thesis by (simp add: listing_group_def with_found_def)
  next
    case (Some l)
    with Inr assms have a:
      "node_find d l (tag ''strong'') = Inr None" "node_find d l (div_class ''secondname'') = Inr None"
      "node_find d l (div_class ''address'') = Inr None" "node_find d l (div_class ''phone'') = Inr None"
      "node_find d l (div_class ''web'') = Inr None" "node_find d l (div_class ''wheel-access'') = Inr None"
      "node_find d l (div_class ''hours'') = Inr None"
      by (simp_all add: listing_absent_def)
    have "run_steps (listing_steps d l) data = (data, None)"
      by (simp add: listing_steps_def name_group_def secondary_group_def address_group_def
          phone_group_def website_group_def wheelchair_group_def hours_group_def
          with_found_absent a)
    with Inr Some show ?thesis by (simp add: listing_group_def with_found_def)
  qed
qed

lemma sections_absent_result:
  assumes "sections_absent d n"
  shows "parse_agency_data d n = init_data"
proof -
  from assms have a:
    "node_find d n (div_class ''available-beds'') = Inr None"
    "node_find d n (div_class ''intake-info'') = Inr None"
    "node_find d n (div_class ''service-type'') = Inr None"
    "node_find d n (div_class ''languages-spoken'') = Inr None"
    "node_find d n (div_class ''last-update'') = Inr None"
    and l: "listing_absent d n"
    by (simp_all add: sections_absent_def)
  show ?thesis
    by (simp add: parse_agency_data_def agency_steps_def listing_absent_step [OF l]
        beds_group_def intake_group_def populations_group_def languages_group_def
        last_update_group_def with_found_absent a)
qed



lemma unique_from_Cons:
  "unique_from seen acc (s # ss) =
     (if key_of s \<notin> seen then unique_from (insert (key_of s) seen) (acc @ [s]) ss
      else unique_from seen acc ss)"
  by (simp add: key_of_def Let_def)

lemma unique_from_append:
  "unique_from seen acc (xs @ ys) =
     unique_from (seen \<union> key_of ` set xs) (unique_from seen acc xs) ys"
proof (induction xs arbitrary: seen acc)
  case Nil
  show ?case by simp
next
  case (Cons s xs)
  show ?case
  proof (cases "key_of s \<in> seen")
    case True
    then have "key_of s \<in> seen \<union> key_of ` set xs" by simp
    with True Cons [of seen acc] show ?thesis
      by (simp add: unique_from_Cons insert_absorb del: unique_from.simps(2))
  next
    case False
    with Cons [of "insert (key_of s) seen" "acc @ [s]"] show ?thesis
      by (simp add: unique_from_Cons del: unique_from.simps(2))
  qed
qed

lemma unique_services_Nil: "unique_services [] = []"
  by (simp add: unique_services_def)

lemma unique_services_snoc:
  "unique_services (xs @ [x]) =
     (if key_of x \<in> key_of ` set xs then unique_services xs else unique_services xs @ [x])"
  unfolding unique_services_def unique_from_append
  by (simp add: unique_from_Cons del: unique_from.simps(2))

lemma first_seen_snoc:
  "first_seen (xs @ [x]) =
     (if key_of x \<in> key_of ` set xs then first_seen xs else first_seen xs @ [x])"
proof -
  let ?P = "\<lambda>ys i. key_of (ys ! i) \<notin> key_of ` set (take i ys)"
  have f: "filter (?P (xs @ [x])) [0 ..< length xs] = filter (?P xs) [0 ..< length xs]"
    by (rule filter_cong) (simp_all add: nth_append)
  have m: "map ((!) (xs @ [x])) (filter (?P xs) [0 ..< length xs]) =
      map ((!) xs) (filter (?P xs) [0 ..< length xs])"
    by (rule map_cong) (simp_all add: nth_append)
  have u: "[0 ..< length (xs @ [x])] = [0 ..< length xs] @ [length xs]" by simp
  have l: "map ((!) (xs @ [x])) (filter (?P (xs @ [x])) [length xs]) =
      (if key_of x \<in> key_of ` set xs then [] else [x])" by simp
  have "first_seen (xs @ [x]) =
      map ((!) xs) (filter (?P xs) [0 ..< length xs]) @
      (if key_of x \<in> key_of ` set xs then [] else [x])"
    unfolding first_seen_def u filter_append map_append f m l ..
  then show ?thesis by (simp add: first_seen_def)
qed

lemma unique_services_first_seen: "unique_services raw = first_seen raw"
proof (induction raw rule: rev_induct)
  case Nil
  show ?case by (simp add: unique_services_Nil first_seen_def)
next
  case (snoc x xs)
  then show ?case by (simp add: unique_services_snoc first_seen_snoc)
qed

lemma unique_services_keys: "key_of ` set (unique_services raw) = key_of ` set raw"
  by (induction raw rule: rev_induct) (auto simp: unique_services_snoc unique_services_Nil)

lemma unique_services_distinct: "distinct (map key_of (unique_services raw))"
proof (induction raw rule: rev_induct)
  case Nil
  show ?case by (simp add: unique_services_Nil)
next
  case (snoc x xs)
  then show ?case using unique_services_keys [of xs] by (auto simp: unique_services_snoc)
qed

lemma apply_range_map_of:
  assumes "lower start_tok \<in> fst ` set day_mapping"
    and "end_tok \<noteq> [] \<longrightarrow> lower end_tok \<in> fst ` set day_mapping"
    and "day \<in> set week"
  shows "map day_index [''monday'', ''tuesday'', ''wednesday'', ''thursday'', ''friday'',
           ''saturday'', ''sunday''] = [0, 1, 2, 3, 4, 5, 6] \<and>
         map_of (apply_range hours (start_tok, end_tok, open_time, close_time)) day =
           (if day_index (canonical_day start_tok) \<le> day_index day \<and>
               day_index day \<le> day_index (if end_tok \<noteq> [] then canonical_day end_tok
                                            else canonical_day start_tok)
            then Some [(''open'', convert_to_24h open_time), (''close'', convert_to_24h close_time)]
            else map_of hours day)"
proof -
  let ?s = "canonical_day start_tok"
  let ?e = "if end_tok \<noteq> [] then canonical_day end_tok else canonical_day start_tok"
  have s: "?s \<in> set day_list" using assms(1) by (rule canonical_day_in)
  have e: "?e \<in> set day_list" using assms(1,2) by (simp add: canonical_day_in)
  from e day_list_index have e7: "day_index ?e < 7" unfolding day_index_def by blast
  have "map_of (apply_range hours (start_tok, end_tok, open_time, close_time)) day =
      (if day \<in> (!) day_list ` set [day_index ?s ..< day_index ?e + 1]
       then Some (open_close (convert_to_24h open_time) (convert_to_24h close_time))
       else map_of hours day)"
    using s e by (simp add: apply_range_def Let_def map_of_fold_update del: upt_Suc set_upt)
  then show ?thesis
    using nth_day_iff [OF assms(3) e7] day_index_order by (simp add: open_close_def del: upt_Suc set_upt)
qed

lemma lit_Nil: "lit [] = Eps"
  by (simp add: lit_def)

lemma lit_Cons: "lit (x # w) = Seq (Ch (Lit x)) (lit w)"
  by (simp add: lit_def)

lemma ms_lit:
  "(s', c') \<in> set (ms True (lit w) (s, c)) \<Longrightarrow>
     c' = c \<and> (\<exists>w'. s = w' @ s' \<and> lower w' = lower w)"
proof (induction w arbitrary: s)
  case Nil
  then show ?case by (simp add: lit_Nil lower_def)
next
  case (Cons x w)
  from Cons.prems obtain q where q: "q \<in> set (ms True (Ch (Lit x)) (s, c))"
    and r: "(s', c') \<in> set (ms True (lit w) q)"
    by (simp only: lit_Cons ms_Seq_iff) blast
  from q obtain a t where s: "s = a # t" and a: "lower_ch a = lower_ch x" and qt: "q = (t, c)"
    by (auto split: list.splits if_splits)
  from r [unfolded qt] have "c' = c \<and> (\<exists>w'. t = w' @ s' \<and> lower w' = lower w)"
    by (rule Cons.IH)
  then obtain w' where "c' = c" "t = w' @ s'" "lower w' = lower w" by blast
  with s a have "s = (a # w') @ s' \<and> lower (a # w') = lower (x # w)" by (simp add: lower_def)
  with \<open>c' = c\<close> show ?case by blast
qed

lemma ms_alts:
  "p \<in> set (ms ic (alts r rs) st) \<Longrightarrow> \<exists>x \<in> set (r # rs). p \<in> set (ms ic x st)"
  by (induction rs arbitrary: r) auto

lemma day_names_known:
  "list_all (\<lambda>w. lower w \<in> fst ` set day_mapping)
     [''Mon'', ''Tue'', ''Wed'', ''Thu'', ''Fri'', ''Sat'', ''Sun'', ''Monday'', ''Tuesday'',
      ''Wednesday'', ''Thursday'', ''Friday'', ''Saturday'', ''Sunday'']"
  by code_simp

lemma ms_day:
  assumes "(s', c') \<in> set (ms True day_rx (s, c))"
  shows "c' = c \<and> (\<exists>w. s = w @ s' \<and> lower w \<in> fst ` set day_mapping)"
proof -
  let ?names = "[''Mon'', ''Tue'', ''Wed'', ''Thu'', ''Fri'', ''Sat'', ''Sun'', ''Monday'',
    ''Tuesday'', ''Wednesday'', ''Thursday'', ''Friday'', ''Saturday'', ''Sunday'']"
  have "day_rx = alts (lit (hd ?names)) (map lit (tl ?names))" by (simp add: day_rx_def)
  with assms ms_alts obtain x where "x \<in> set (lit (hd ?names) # map lit (tl ?names))"
    and x: "(s', c') \<in> set (ms True x (s, c))" by metis
  then have "x \<in> lit ` set ?names" by simp
  then obtain n where n: "n \<in> set ?names" and "x = lit n" by blast
  with x ms_lit have c: "c' = c" and "\<exists>w'. s = w' @ s' \<and> lower w' = lower n" by blast+
  then obtain w where w: "s = w @ s'" "lower w = lower n" by blast
  from n day_names_known have "lower n \<in> fst ` set day_mapping"
    unfolding list_all_iff by blast
  with c w show ?thesis by auto
qed

lemma ms_no_groups:
  "(s', c') \<in> set (ms ic r (s, c)) \<Longrightarrow> i \<notin> grps r \<Longrightarrow> map_of c' i = map_of c i"
proof (induction r arbitrary: s c s' c')
  case (Ch k)
  then show ?case by (auto split: list.splits if_splits)
next
  case (Seq a b)
  from Seq.prems(1) obtain q where q: "q \<in> set (ms ic a (s, c))" and r: "(s', c') \<in> set (ms ic b q)"
    by (simp only: ms_Seq_iff) blast
  obtain s1 c1 where q1: "q = (s1, c1)" by (cases q)
  from Seq.prems(2) have "i \<notin> grps a" "i \<notin> grps b" by simp_all
  with Seq.IH(1) [OF q [unfolded q1]] Seq.IH(2) [OF r [unfolded q1]] show ?case by simp
next
  case (Grp j a)
  from Grp.prems(1) obtain c0 where m: "(s', c0) \<in> set (ms ic a (s, c))"
    and c': "c' = AList.update j (take (length s - length s') s) c0" by auto
  from Grp.prems(2) have "i \<noteq> j" "i \<notin> grps a" by simp_all
  with Grp.IH [OF m] c' show ?case by (simp add: update_conv')
qed (auto split: if_splits)

lemma ms_grp_day:
  assumes "(s', c') \<in> set (ms True (Grp i day_rx) (s, c))"
  shows "\<exists>w. c' = AList.update i w c \<and> lower w \<in> fst ` set day_mapping"
proof -
  from assms obtain c0 where m: "(s', c0) \<in> set (ms True day_rx (s, c))"
    and c': "c' = AList.update i (take (length s - length s') s) c0" by auto
  from ms_day [OF m] obtain w where w: "c0 = c" "s = w @ s'" "lower w \<in> fst ` set day_mapping"
    by blast
  from w(2) have "take (length s - length s') s = w" by simp
  with c' w(1) have "c' = AList.update i w c" by simp
  with w(3) show ?thesis by blast
qed

lemma grps_tail:
  "grps (seqs [Rep Space 0 None, Opt (Ch (Lit CHR '':'')), Rep Space 0 None,
           Grp 3 text_time_rx,
           Rep Space 0 None, Ch (Lit CHR ''-''), Rep Space 0 None,
           Grp 4 text_time_rx]) = {3, 4}"
  by (auto simp: text_time_rx_def clock_rx_def)

lemma ms_day_range_caps:
  assumes "(s', c') \<in> set (ms True day_range_rx (s, []))"
  shows "(\<exists>w. map_of c' 1 = Some w \<and> lower w \<in> fst ` set day_mapping) \<and>
         (map_of c' 2 = None \<or> (\<exists>w. map_of c' 2 = Some w \<and> lower w \<in> fst ` set day_mapping))"
proof -
  let ?opt = "seqs [Rep Space 0 None, Ch (Lit CHR ''-''), Rep Space 0 None, Grp 2 day_rx]"
  let ?tail = "seqs [Rep Space 0 None, Opt (Ch (Lit CHR '':'')), Rep Space 0 None,
           Grp 3 text_time_rx,
           Rep Space 0 None, Ch (Lit CHR ''-''), Rep Space 0 None,
           Grp 4 text_time_rx]"
  have eq: "day_range_rx = Seq (Grp 1 day_rx) (Seq (Opt ?opt) ?tail)"
    by (simp add: day_range_rx_def)
  from assms [unfolded eq] obtain q1 q2 where q1: "q1 \<in> set (ms True (Grp 1 day_rx) (s, []))"
    and q2: "q2 \<in> set (ms True (Opt ?opt) q1)"
    and q3: "(s', c') \<in> set (ms True ?tail q2)"
    by (simp only: ms_Seq_iff) blast
  obtain s1 c1 where p1: "q1 = (s1, c1)" by (cases q1)
  obtain s2 c2 where p2: "q2 = (s2, c2)" by (cases q2)
  from ms_grp_day [OF q1 [unfolded p1]] obtain w where
    c1: "c1 = AList.update 1 w []" and w: "lower w \<in> fst ` set day_mapping" by blast
  have c2: "map_of c2 1 = Some w \<and>
      (map_of c2 2 = None \<or> (\<exists>v. map_of c2 2 = Some v \<and> lower v \<in> fst ` set day_mapping))"
  proof (cases "q2 = q1")
    case True
    with p1 p2 c1 have "c2 = [(1, w)]" by simp
    then show ?thesis by simp
  next
    case False
    with q2 have "q2 \<in> set (ms True ?opt q1)" by simp
    then obtain a b where a: "a \<in> set (ms True (Rep Space 0 None) q1)"
      and b: "b \<in> set (ms True (seqs [Ch (Lit CHR ''-''), Rep Space 0 None]) a)"
      and g: "q2 \<in> set (ms True (Grp 2 day_rx) b)"
      by (simp only: seqs.simps ms_Seq_iff ms_Eps_iff) blast
    obtain sa ca where pa: "a = (sa, ca)" by (cases a)
    obtain sb cb where pb: "b = (sb, cb)" by (cases b)
    from a [unfolded pa p1] have ca: "ca = c1" by auto
    from b [unfolded pa pb] have "map_of cb i = map_of ca i" for i
      by (rule ms_no_groups) simp
    with ca have cb: "map_of cb = map_of c1" by auto
    from ms_grp_day [OF g [unfolded p2 pb]] obtain v where
      "c2 = AList.update 2 v cb" and v: "lower v \<in> fst ` set day_mapping" by blast
    then have "map_of c2 = (map_of c1)(2 \<mapsto> v)" using cb by (simp add: update_conv')
    with c1 v show ?thesis by simp
  qed
  have "map_of c' 1 = map_of c2 1" "map_of c' 2 = map_of c2 2"
    using q3 [unfolded p2] by (rule ms_no_groups, simp only: grps_tail, simp)+
  with c2 w show ?thesis by auto
qed

lemma findall_from_mem:
  "p \<in> set (findall_from ic r k s) \<Longrightarrow> \<exists>s'. rx_match ic r s' = Some p"
proof (induction s arbitrary: k)
  case Nil
  show ?case
  proof (cases "rx_match ic r []")
    case None
    with Nil show ?thesis by (cases "k = 0") simp_all
  next
    case (Some m)
    with Nil have "p = m" by (cases "k = 0") simp_all
    with Some show ?thesis by blast
  qed
next
  case (Cons x xs)
  show ?case
  proof (cases "0 < k")
    case True
    with Cons.prems have "p \<in> set (findall_from ic r (k - 1) xs)" by simp
    then show ?thesis by (rule Cons.IH)
  next
    case False
    show ?thesis
    proof (cases "rx_match ic r (x # xs)")
      case None
      with False Cons.prems have "p \<in> set (findall_from ic r 0 xs)" by simp
      then show ?thesis by (rule Cons.IH)
    next
      case (Some m)
      obtain t c where m: "m = (t, c)" by (cases m)
      with Some False Cons.prems
      have "p = (t, c) \<or> p \<in> set (findall_from ic r (length t - 1) xs)" by simp
      then show ?thesis using Some m Cons.IH by blast
    qed
  qed
qed

lemma rx_match_mem:
  "rx_match ic r s = Some (txt, c) \<Longrightarrow> \<exists>rest. (rest, c) \<in> set (ms ic r (s, []))"
  by (auto simp: rx_match_def split: list.splits)

lemma day_ranges_known:
  assumes "(start_tok, end_tok, open_time, close_time) \<in> set (day_ranges t)"
  shows "lower start_tok \<in> fst ` set day_mapping \<and>
         (end_tok \<noteq> [] \<longrightarrow> lower end_tok \<in> fst ` set day_mapping)"
proof -
  from assms obtain tx c where m: "(tx, c) \<in> set (findall True day_range_rx t)"
    and g: "start_tok = group c 1" "end_tok = group c 2"
    by (auto simp: day_ranges_def)
  from m findall_from_mem obtain s where "rx_match True day_range_rx s = Some (tx, c)"
    unfolding findall_def by blast
  with rx_match_mem obtain rest where "(rest, c) \<in> set (ms True day_range_rx (s, []))" by blast
  from ms_day_range_caps [OF this] g show ?thesis by (force simp: group_def)
qed

lemma map_of_default_hours:
  "day \<in> set week \<Longrightarrow> map_of default_hours day = Some [(''open'', []), (''close'', [])]"
  by (auto simp: default_hours_def week_def open_close_def)

lemma foldl_apply_range:
  assumes "\<And>m. m \<in> set mts \<Longrightarrow> (case m of (a, b, ot, ct) \<Rightarrow>
             lower a \<in> fst ` set day_mapping \<and> (b \<noteq> [] \<longrightarrow> lower b \<in> fst ` set day_mapping))"
    and "day \<in> set week"
  shows "map_of (foldl apply_range h mts) day =
     (case find (\<lambda>m. in_range m day) (rev mts) of
        None \<Rightarrow> map_of h day
      | Some (a, b, ot, ct) \<Rightarrow> Some [(''open'', convert_to_24h ot), (''close'', convert_to_24h ct)])"
  using assms(1)
proof (induction mts rule: rev_induct)
  case Nil
  show ?case by simp
next
  case (snoc m mts)
  obtain a b ot ct where m: "m = (a, b, ot, ct)" by (cases m)
  from snoc.prems [of m] m have v: "lower a \<in> fst ` set day_mapping"
    "b \<noteq> [] \<longrightarrow> lower b \<in> fst ` set day_mapping" by simp_all
  have ih: "map_of (foldl apply_range h mts) day =
     (case find (\<lambda>m. in_range m day) (rev mts) of
        None \<Rightarrow> map_of h day
      | Some (a, b, ot, ct) \<Rightarrow> Some [(''open'', convert_to_24h ot), (''close'', convert_to_24h ct)])"
    using snoc.prems by (intro snoc.IH) simp
  have r: "in_range m day \<longleftrightarrow>
      day_index (canonical_day a) \<le> day_index day \<and>
      day_index day \<le> day_index (if b \<noteq> [] then canonical_day b else canonical_day a)"
    by (simp add: in_range_def m)
  from apply_range_map_of [OF v assms(2), of "foldl apply_range h mts" ot ct, THEN conjunct2]
  show ?case by (simp add: m [symmetric] r [symmetric] ih) (simp add: m)
qed

lemma day_ranges_Nil: "day_ranges [] = []"
  by code_simp










section \<open>TimeNormalizer\<close>

text \<open>
  C5. \<^const>\<open>convert_to_24h\<close> maps \<^verbatim>\<open>9:00 AM\<close> to \<^verbatim>\<open>09:00\<close>, \<^verbatim>\<open>12:00 AM\<close> to \<^verbatim>\<open>00:00\<close>,
  \<^verbatim>\<open>12:00 PM\<close> to \<^verbatim>\<open>12:00\<close> and \<^verbatim>\<open>9PM\<close> to \<^verbatim>\<open>21:00\<close>: hour 12 becomes 0 before noon
  and stays after it, other hours after noon gain 12, missing minutes are \<^verbatim>\<open>:00\<close>, and
  the hour has two digits.
\<close>

theorem convert_to_24h_examples:
  "convert_to_24h ''9:00 AM'' = ''09:00'' \<and> convert_to_24h ''12:00 AM'' = ''00:00'' \<and>
   convert_to_24h ''12:00 PM'' = ''12:00'' \<and> convert_to_24h ''9PM'' = ''21:00''"
  by code_simp

text \<open>
  C2, as stated: a token of no recognised shape comes back character for character.
  The token \<^verbatim>\<open>noon\<close> has no recognised shape and comes back as \<^verbatim>\<open>NOON\<close>, since the value
  returned is the rebound variable.
\<close>

theorem convert_to_24h_changes_unrecognized:
  "ascii ''noon'' \<and> unrecognized ''noon'' \<and> convert_to_24h ''noon'' = ''NOON'' \<and> convert_to_24h ''noon'' \<noteq> ''noon''"
  by code_simp

text \<open>
  C2, amended: for every ASCII token of no recognised shape, \<^const>\<open>convert_to_24h\<close> returns
  the token in upper case with all whitespace removed; this is the token itself when it
  has no whitespace and no lower-case letter. The function is total: no exception
  leaves it.
\<close>

theorem convert_to_24h_unrecognized:
  "ascii t \<Longrightarrow> unrecognized t \<Longrightarrow>
     convert_to_24h t = remove_spaces (upper t) \<and>
     ((\<forall>c \<in> set t. \<not> is_space c \<and> c \<notin> set lowers) \<longrightarrow> convert_to_24h t = t)"
proof -
  assume a: "ascii t" and u: "unrecognized t"
  have eq: "convert_to_24h t = normalize_token t"
  proof (cases "convert_body (normalize_token t)")
    case (Inl e)
    then show ?thesis by (simp add: convert_to_24h_def)
  next
    case (Inr r)
    with u have "\<not> contains ''AM'' (normalize_token t) \<and> \<not> contains ''PM'' (normalize_token t)"
      by (simp add: unrecognized_def Let_def)
    then have "convert_body (normalize_token t) = Inr (normalize_token t)"
      by (simp add: convert_body_def)
    then show ?thesis by (simp add: convert_to_24h_def)
  qed
  show ?thesis using eq normalize_token_id [OF a] by (simp add: normalize_token_def)
qed

theorem convert_to_24h_unrecognized_witness:
  "ascii ''21:00'' \<and> unrecognized ''21:00'' \<and> convert_to_24h ''21:00'' = ''21:00''"
proof -
  have a: "ascii ''21:00''" by code_simp
  have h: "unrecognized ''21:00''" by code_simp
  have g: "\<forall>c \<in> set ''21:00''. \<not> is_space c \<and> c \<notin> set lowers" by code_simp
  show ?thesis using a h g convert_to_24h_unrecognized [OF a h] by blast
qed

section \<open>HoursTextParser\<close>

text \<open>
  C10, as stated: a text whose times lack minutes gives the empty schedule. The text
  \<^verbatim>\<open>24/7 Mon-Fri: 9AM - 5PM\<close> has no time with minutes, and every day of its schedule is
  open from 00:00 to 23:59.
\<close>

theorem parse_hours_sentinel_without_minutes:
  "ascii ''24/7 Mon-Fri: 9AM - 5PM'' \<and> \<not> has_clock ''24/7 Mon-Fri: 9AM - 5PM'' \<and>
   parse_hours ''24/7 Mon-Fri: 9AM - 5PM'' =
     map (\<lambda>day. (day, open_close ''00:00'' ''23:59'')) week \<and>
   parse_hours ''24/7 Mon-Fri: 9AM - 5PM'' \<noteq> default_hours"
  by code_simp

text \<open>
  C10, amended: \<^const>\<open>parse_hours\<close> only recognises times with a minutes part (a digit, a
  colon, two digits). For every ASCII text without such a time no day range is found, and,
  unless the text has the 24/7 or 24 hours sentinel, every weekday of the returned
  schedule is at the empty default; \<^const>\<open>convert_to_24h\<close> itself accepts \<^verbatim>\<open>9AM\<close>.
\<close>

theorem parse_hours_needs_minutes:
  "ascii hours_text \<Longrightarrow> \<not> has_clock hours_text \<Longrightarrow>
     day_ranges hours_text = [] \<and>
     (rx_search True always_open_rx hours_text = None \<longrightarrow>
        parse_hours hours_text = map (\<lambda>day. (day, [(''open'', []), (''close'', [])])) week) \<and>
     convert_to_24h ''9AM'' = ''09:00''"
proof -
  assume "ascii hours_text" and n: "\<not> has_clock hours_text"
  have 1: "day_ranges hours_text = []" using n by (rule day_ranges_none)
  have 2: "convert_to_24h ''9AM'' = ''09:00''" by code_simp
  have 3: "parse_hours hours_text = default_hours"
    if "rx_search True always_open_rx hours_text = None"
    using that 1 by (simp add: parse_hours_def)
  show ?thesis using 1 2 3 by (simp add: default_hours_def open_close_def)
qed

theorem parse_hours_needs_minutes_witness:
  "ascii ''Mon-Fri: 9AM - 5PM'' \<and> \<not> has_clock ''Mon-Fri: 9AM - 5PM'' \<and>
   rx_search True always_open_rx ''Mon-Fri: 9AM - 5PM'' = None \<and>
   parse_hours ''Mon-Fri: 9AM - 5PM'' = map (\<lambda>day. (day, [(''open'', []), (''close'', [])])) week"
proof -
  have a: "ascii ''Mon-Fri: 9AM - 5PM''" by code_simp
  have h: "\<not> has_clock ''Mon-Fri: 9AM - 5PM''" by code_simp
  have g: "rx_search True always_open_rx ''Mon-Fri: 9AM - 5PM'' = None" by code_simp
  show ?thesis using a h g parse_hours_needs_minutes [OF a h] by blast
qed

text \<open>
  C6. For every text that contains \<^verbatim>\<open>24/7\<close> or \<^verbatim>\<open>24 hours\<close>, in any case of the
  letters, \<^const>\<open>parse_hours\<close> returns the schedule in which every weekday is open at
  00:00 and closes at 23:59, whatever day ranges the text has besides.
\<close>

theorem parse_hours_always_open:
  "contains ''24/7'' (lower hours_text) \<or> contains ''24 hours'' (lower hours_text) \<Longrightarrow>
     parse_hours hours_text =
       map (\<lambda>day. (day, [(''open'', ''00:00''), (''close'', ''23:59'')])) week"
proof -
  assume a: "contains ''24/7'' (lower hours_text) \<or> contains ''24 hours'' (lower hours_text)"
  have found: "rx_search True always_open_rx hours_text \<noteq> None"
    using a
  proof
    assume "contains ''24/7'' (lower hours_text)"
    then show ?thesis
      by (rule search_from_contains [rotated 2]) (simp_all add: match_24_7 rx_match_Some)
  next
    assume "contains ''24 hours'' (lower hours_text)"
    then show ?thesis
      by (rule search_from_contains [rotated 2]) (simp_all add: match_24_hours rx_match_Some)
  qed
  have "hours_text \<noteq> []" using a by (auto simp: lower_def)
  then show ?thesis using found by (simp add: parse_hours_def all_day)
qed

theorem parse_hours_always_open_witness:
  "contains ''24/7'' (lower ''Open 24/7, Mon-Fri: 9:00 AM - 5:00 PM'') \<and>
   parse_hours ''Open 24/7, Mon-Fri: 9:00 AM - 5:00 PM'' =
     map (\<lambda>day. (day, [(''open'', ''00:00''), (''close'', ''23:59'')])) week"
proof -
  have h: "contains ''24/7'' (lower ''Open 24/7, Mon-Fri: 9:00 AM - 5:00 PM'')" by code_simp
  then have "contains ''24/7'' (lower ''Open 24/7, Mon-Fri: 9:00 AM - 5:00 PM'') \<or>
    contains ''24 hours'' (lower ''Open 24/7, Mon-Fri: 9:00 AM - 5:00 PM'')" by (rule disjI1)
  from h parse_hours_always_open [OF this] show ?thesis by (rule conjI)
qed

text \<open>
  C3, as stated: the days of a range are those between the start and the end under the
  order Sunday = 0 to Saturday = 6, so that \<^verbatim>\<open>Sun-Tue\<close> sets Sunday, Monday and Tuesday.
  The range of \<^verbatim>\<open>Sun-Tue: 9:00 AM - 5:00 PM\<close> is matched, and the three days stay empty.
\<close>

theorem parse_hours_sun_tue_unapplied:
  "day_ranges ''Sun-Tue: 9:00 AM - 5:00 PM'' = [(''Sun'', ''Tue'', ''9:00 AM'', ''5:00 PM'')] \<and>
   map_of (parse_hours ''Sun-Tue: 9:00 AM - 5:00 PM'') ''sunday'' = Some [(''open'', []), (''close'', [])] \<and>
   map_of (parse_hours ''Sun-Tue: 9:00 AM - 5:00 PM'') ''monday'' = Some [(''open'', []), (''close'', [])] \<and>
   map_of (parse_hours ''Sun-Tue: 9:00 AM - 5:00 PM'') ''tuesday'' = Some [(''open'', []), (''close'', [])]"
  by code_simp

text \<open>
  C3, amended: the order is that of \<^const>\<open>day_list\<close>, Monday = 0 to Sunday = 6. In
  \<^const>\<open>parse_hours\<close>, for every ASCII text without the 24/7 or 24 hours sentinel, each
  matched day range with a time range gives its open and close times to exactly the
  weekdays whose index lies between the index of its start day and the index of its end
  day, both included and without wrapping past the end of the week: a weekday has the
  times of the last matched range that it lies in, and the empty times when it lies in
  none.
\<close>

theorem parse_hours_ranges_monday_first:
  "ascii hours_text \<Longrightarrow> rx_search True always_open_rx hours_text = None \<Longrightarrow>
   day \<in> set week \<Longrightarrow>
     map day_index [''monday'', ''tuesday'', ''wednesday'', ''thursday'', ''friday'',
       ''saturday'', ''sunday''] = [0, 1, 2, 3, 4, 5, 6] \<and>
     map_of (parse_hours hours_text) day =
       (case find (\<lambda>m. in_range m day) (rev (day_ranges hours_text)) of
          None \<Rightarrow> Some [(''open'', []), (''close'', [])]
        | Some (start_tok, end_tok, open_time, close_time) \<Rightarrow>
            Some [(''open'', convert_to_24h open_time), (''close'', convert_to_24h close_time)])"
proof -
  assume "ascii hours_text" and n: "rx_search True always_open_rx hours_text = None"
    and d: "day \<in> set week"
  have "parse_hours hours_text = foldl apply_range default_hours (day_ranges hours_text)"
    using n by (cases "hours_text = []") (simp_all add: parse_hours_def day_ranges_Nil)
  moreover have "map_of (foldl apply_range default_hours (day_ranges hours_text)) day =
     (case find (\<lambda>m. in_range m day) (rev (day_ranges hours_text)) of
        None \<Rightarrow> map_of default_hours day
      | Some (a, b, ot, ct) \<Rightarrow> Some [(''open'', convert_to_24h ot), (''close'', convert_to_24h ct)])"
    using day_ranges_known by (intro foldl_apply_range d) auto
  ultimately show ?thesis using day_index_order map_of_default_hours [OF d]
    by (simp split: option.splits)
qed

theorem parse_hours_ranges_monday_first_witness:
  "ascii ''Mon-Sat: 9:00 AM - 5:00 PM, Sat-Sun: 10:00 AM - 2:00 PM'' \<and>
   rx_search True always_open_rx ''Mon-Sat: 9:00 AM - 5:00 PM, Sat-Sun: 10:00 AM - 2:00 PM'' = None \<and>
   map_of (parse_hours ''Mon-Sat: 9:00 AM - 5:00 PM, Sat-Sun: 10:00 AM - 2:00 PM'') ''friday'' =
     Some [(''open'', ''09:00''), (''close'', ''17:00'')] \<and>
   map_of (parse_hours ''Mon-Sat: 9:00 AM - 5:00 PM, Sat-Sun: 10:00 AM - 2:00 PM'') ''saturday'' =
     Some [(''open'', ''10:00''), (''close'', ''14:00'')] \<and>
   map_of (parse_hours ''Mon-Sat: 9:00 AM - 5:00 PM, Sat-Sun: 10:00 AM - 2:00 PM'') ''sunday'' =
     Some [(''open'', ''10:00''), (''close'', ''14:00'')]"
proof -
  let ?t = "''Mon-Sat: 9:00 AM - 5:00 PM, Sat-Sun: 10:00 AM - 2:00 PM''"
  have a: "ascii ?t" by code_simp
  have n: "rx_search True always_open_rx ?t = None" by code_simp
  have w: "''friday'' \<in> set week" "''saturday'' \<in> set week" "''sunday'' \<in> set week"
    by code_simp+
  have f: "find (\<lambda>m. in_range m ''friday'') (rev (day_ranges ?t)) =
      Some (''Mon'', ''Sat'', ''9:00 AM'', ''5:00 PM'')"
    "find (\<lambda>m. in_range m ''saturday'') (rev (day_ranges ?t)) =
      Some (''Sat'', ''Sun'', ''10:00 AM'', ''2:00 PM'')"
    "find (\<lambda>m. in_range m ''sunday'') (rev (day_ranges ?t)) =
      Some (''Sat'', ''Sun'', ''10:00 AM'', ''2:00 PM'')"
    by code_simp+
  have c: "convert_to_24h ''9:00 AM'' = ''09:00''" "convert_to_24h ''5:00 PM'' = ''17:00''"
    "convert_to_24h ''10:00 AM'' = ''10:00''" "convert_to_24h ''2:00 PM'' = ''14:00''"
    by code_simp+
  show ?thesis
    using a n parse_hours_ranges_monday_first [OF a n w(1)]
      parse_hours_ranges_monday_first [OF a n w(2)]
      parse_hours_ranges_monday_first [OF a n w(3)]
    by (simp add: f c)
qed

section \<open>HoursTableParser\<close>

text \<open>
  C7. When an exception leaves the \<^verbatim>\<open>try\<close> block of \<^const>\<open>parse_hours_table\<close>, the function
  still returns, and what it returns is the schedule in which every weekday has the
  empty open and close times.
\<close>

theorem parse_hours_table_failure:
  "snd (hours_table_body d table default_hours) = Some e \<Longrightarrow>
     parse_hours_table d table = map (\<lambda>day. (day, [(''open'', []), (''close'', [])])) week"
  using hours_table_body_raises [of d table default_hours e]
  by (simp add: parse_hours_table_def default_hours_def open_close_def)

theorem parse_hours_table_failure_witness:
  "snd (hours_table_body broken_table 0 default_hours) = Some (LibError ''detached'') \<and>
   parse_hours_table broken_table 0 = map (\<lambda>day. (day, [(''open'', []), (''close'', [])])) week"
proof -
  have h: "snd (hours_table_body broken_table 0 default_hours) = Some (LibError ''detached'')"
    by code_simp
  from h parse_hours_table_failure [OF h] show ?thesis by (rule conjI)
qed

section \<open>WeeklySchedule\<close>

text \<open>
  C9. For every input, the schedule returned by \<^const>\<open>parse_hours\<close> and the one returned by
  \<^const>\<open>parse_hours_table\<close> have exactly the seven weekday names as their keys, Sunday
  first, and each value has exactly the keys \<^verbatim>\<open>open\<close> and \<^verbatim>\<open>close\<close>: no day key is ever
  added, removed or renamed.
\<close>

theorem schedules_keep_week:
  "map fst (parse_hours hours_text) =
     [''sunday'', ''monday'', ''tuesday'', ''wednesday'', ''thursday'', ''friday'', ''saturday''] \<and>
   map (\<lambda>p. map fst (snd p)) (parse_hours hours_text) = replicate 7 [''open'', ''close''] \<and>
   map fst (parse_hours_table d table) =
     [''sunday'', ''monday'', ''tuesday'', ''wednesday'', ''thursday'', ''friday'', ''saturday''] \<and>
   map (\<lambda>p. map fst (snd p)) (parse_hours_table d table) = replicate 7 [''open'', ''close'']"
  using schedule_ok_shape [OF schedule_ok_parse_hours, of hours_text]
    schedule_ok_shape [OF schedule_ok_parse_hours_table, of d table] by simp

section \<open>AgencyRecordExtractor\<close>

text \<open>
  C4. For every agency block, whatever sections it has, the record returned by
  \<^const>\<open>parse_agency_data\<close> has the same keys in the same order: the 11 identity and
  operational fields and the 2 x 7 x 2 = 28 hour keys, 39 distinct keys. When every
  optional section is missing, every key has the empty text.
\<close>

theorem agency_record_fixed_keys:
  "map fst (parse_agency_data d agency_div) = agency_keys \<and>
   length agency_keys = 39 \<and> distinct agency_keys \<and>
   (sections_absent d agency_div \<longrightarrow>
      parse_agency_data d agency_div = map (\<lambda>k. (k, [])) agency_keys)"
  using parse_agency_data_keys [of d agency_div] agency_keys_count
    sections_absent_result [of d agency_div] init_data_empty by simp

theorem agency_record_fixed_keys_witness:
  "sections_absent empty_agency 0 \<and> sections_absent empty_listing 0 \<and>
   parse_agency_data empty_agency 0 = map (\<lambda>k. (k, [])) agency_keys \<and>
   parse_agency_data empty_listing 0 = map (\<lambda>k. (k, [])) agency_keys"
proof -
  have 1: "sections_absent empty_agency 0" by code_simp
  have 2: "sections_absent empty_listing 0" by code_simp
  show ?thesis
    using 1 2 agency_record_fixed_keys [of empty_agency 0] agency_record_fixed_keys [of empty_listing 0]
    by blast
qed




section \<open>ServiceTaxonomyExtractor\<close>

text \<open>
  C8. For every document for which \<^const>\<open>extract_service_types\<close> returns its table, no two
  rows have the same category and service name. The rows are the entries of the scan
  that share this pair with no earlier entry, each with its own code and description,
  in the order of the scan; where the function returns early, there are no rows.
\<close>

theorem service_types_unique:
  "extract_service_types d soup = Inr rows \<Longrightarrow>
     distinct (map key_of rows) \<and>
     (case scan_service_types d soup of
        Inr (Some raw) \<Rightarrow> rows = first_seen raw \<and> key_of ` set rows = key_of ` set raw
      | Inr None \<Rightarrow> rows = []
      | Inl e \<Rightarrow> False)"
proof -
  assume a: "extract_service_types d soup = Inr rows"
  show ?thesis
  proof (cases "scan_service_types d soup")
    case (Inl e)
    with a show ?thesis by (simp add: extract_service_types_def)
  next
    case (Inr r)
    show ?thesis
    proof (cases r)
      case None
      with Inr a show ?thesis by (auto simp: extract_service_types_def)
    next
      case (Some raw)
      with Inr a have rows: "rows = unique_services raw"
        by (auto simp: extract_service_types_def)
      have "distinct (map key_of rows)" unfolding rows by (rule unique_services_distinct)
      moreover have "rows = first_seen raw" unfolding rows by (rule unique_services_first_seen)
      moreover have "key_of ` set rows = key_of ` set raw"
        unfolding rows by (rule unique_services_keys)
      ultimately show ?thesis using Inr Some by simp
    qed
  qed
qed

theorem service_types_unique_witness:
  "extract_service_types duplicate_services 0 =
     Inr [\<lparr>category = ''Services'', service_code = ''WM'', service_name = ''Detox'',
            description = []\<rparr>,
          \<lparr>category = ''Services'', service_code = [], service_name = ''Outpatient'',
            description = []\<rparr>] \<and>
   scan_service_types duplicate_services 0 =
     Inr (Some [\<lparr>category = ''Services'', service_code = ''WM'', service_name = ''Detox'',
                  description = []\<rparr>,
                \<lparr>category = ''Services'', service_code = ''XX'', service_name = ''Detox'',
                  description = []\<rparr>,
                \<lparr>category = ''Services'', service_code = [], service_name = ''Outpatient'',
                  description = []\<rparr>]) \<and>
   distinct (map key_of
     [\<lparr>category = ''Services'', service_code = ''WM'', service_name = ''Detox'',
        description = []\<rparr>,
      \<lparr>category = ''Services'', service_code = [], service_name = ''Outpatient'',
        description = []\<rparr>])"
proof -
  have h: "extract_service_types duplicate_services 0 =
     Inr [\<lparr>category = ''Services'', service_code = ''WM'', service_name = ''Detox'',
            description = []\<rparr>,
          \<lparr>category = ''Services'', service_code = [], service_name = ''Outpatient'',
            description = []\<rparr>]" by code_simp
  have g: "scan_service_types duplicate_services 0 =
     Inr (Some [\<lparr>category = ''Services'', service_code = ''WM'', service_name = ''Detox'',
                  description = []\<rparr>,
                \<lparr>category = ''Services'', service_code = ''XX'', service_name = ''Detox'',
                  description = []\<rparr>,
                \<lparr>category = ''Services'', service_code = [], service_name = ''Outpatient'',
                  description = []\<rparr>])" by code_simp
  from service_types_unique [OF h, THEN conjunct1] h g show ?thesis by blast
qed


end
